theory Spec2Isabelle
  imports Main "HOL-Library.Monad_Syntax" "HOL-Library.Sublist"
begin

section \<open>JavaScript values as the order pipeline sees them\<close>

text \<open>
  Orders, vendor ids and the persisted ledger are values parsed from JSON
  (\<^verbatim>\<open>response.data\<close>, \<^verbatim>\<open>JSON.parse\<close>), plus \<^verbatim>\<open>undefined\<close> for an absent
  property or a missing argument. Numbers are the integer-valued ones (order and
  vendor ids); an object is the list of its own properties and is read by key only.
  An internal \<^verbatim>\<open>TypeError\<close> is the value \<open>None\<close> of an option type.
\<close>

datatype json =
    JNull
  | JUndefined
  | JBool bool
  | JNum int
  | JStr string
  | JArr "json list"
  | JObj "(string \<times> json) list"

text \<open>Truthiness, as tested by \<^verbatim>\<open>!x\<close>, \<^verbatim>\<open>x && ...\<close> and \<^verbatim>\<open>if (x)\<close>.\<close>

fun js_truthy :: "json \<Rightarrow> bool" where
  "js_truthy JNull = False"
| "js_truthy JUndefined = False"
| "js_truthy (JBool b) = b"
| "js_truthy (JNum n) = (n \<noteq> 0)"
| "js_truthy (JStr s) = (s \<noteq> [])"
| "js_truthy (JArr xs) = True"
| "js_truthy (JObj kvs) = True"

fun isArray :: "json \<Rightarrow> bool" where
  "isArray (JArr xs) = True"
| "isArray v = False"

fun elements :: "json \<Rightarrow> json list" where
  "elements (JArr xs) = xs"
| "elements v = []"

text \<open>
  Property read \<^verbatim>\<open>x.k\<close> for the data properties the pipeline names (\<^verbatim>\<open>id\<close>,
  \<^verbatim>\<open>meta_data\<close>, \<^verbatim>\<open>key\<close>, ...): a \<^verbatim>\<open>TypeError\<close> on \<^verbatim>\<open>null\<close> and
  \<^verbatim>\<open>undefined\<close>, the own property of an object, \<^verbatim>\<open>undefined\<close> otherwise.
\<close>

fun js_get :: "json \<Rightarrow> string \<Rightarrow> json option" where
  "js_get JNull k = None"
| "js_get JUndefined k = None"
| "js_get (JObj kvs) k = Some (case map_of kvs k of None \<Rightarrow> JUndefined | Some v \<Rightarrow> v)"
| "js_get v k = Some JUndefined"

text \<open>
  Decimal text of an integer-valued number: what \<^verbatim>\<open>Number.prototype.toString\<close>
  prints for an integer that a JavaScript number holds exactly (magnitude up to
  \<open>2^53\<close>, as order and vendor ids are); larger magnitudes, which JavaScript rounds
  and from \<open>10^21\<close> prints with an exponent, are outside this model of numbers.
\<close>

definition digit_char :: "nat \<Rightarrow> char" where
  "digit_char d = ''0123456789'' ! d"

fun nat_digits :: "nat \<Rightarrow> string" where
  "nat_digits n = (if n < 10 then [digit_char n] else nat_digits (n div 10) @ [digit_char (n mod 10)])"

declare nat_digits.simps [simp del]

definition number_toString :: "int \<Rightarrow> string" where
  "number_toString n = (if n < 0 then CHR ''-'' # nat_digits (nat (- n)) else nat_digits (nat n))"

fun join_with :: "string \<Rightarrow> string list \<Rightarrow> string" where
  "join_with sep [] = []"
| "join_with sep [s] = s"
| "join_with sep (s # t # ss) = s @ sep @ join_with sep (t # ss)"

text \<open>
  The \<^verbatim>\<open>ToString\<close> conversion of a template literal \<^verbatim>\<open>`${x}`\<close>. An array is its
  elements joined by commas, \<^verbatim>\<open>null\<close> and \<^verbatim>\<open>undefined\<close> elements being empty.
  A parsed object has no callable property of its own, so an own property named
  \<^verbatim>\<open>toString\<close> shadows \<^verbatim>\<open>Object.prototype.toString\<close> and the conversion raises.
\<close>

fun js_ToString :: "json \<Rightarrow> string option" where
  "js_ToString JNull = Some ''null''"
| "js_ToString JUndefined = Some ''undefined''"
| "js_ToString (JBool b) = Some (if b then ''true'' else ''false'')"
| "js_ToString (JNum n) = Some (number_toString n)"
| "js_ToString (JStr s) = Some s"
| "js_ToString (JArr xs) =
     (let ss = map (\<lambda>x. if x = JNull \<or> x = JUndefined then Some [] else js_ToString x) xs
      in if None \<in> set ss then None else Some (join_with '','' (map the ss)))"
| "js_ToString (JObj kvs) =
     (if ''toString'' \<in> set (map fst kvs) then None else Some ''[object Object]'')"

text \<open>The method call \<^verbatim>\<open>x.toString()\<close>: as above, but \<^verbatim>\<open>null\<close> and \<^verbatim>\<open>undefined\<close> raise.\<close>

definition js_toString :: "json \<Rightarrow> string option" where
  "js_toString x = (if x = JNull \<or> x = JUndefined then None else js_ToString x)"

text \<open>
  \<^verbatim>\<open>Array.prototype.find\<close>, \<^verbatim>\<open>some\<close>, \<^verbatim>\<open>filter\<close> and \<^verbatim>\<open>map\<close> with a callback
  that may raise: elements are visited in order and the first exception leaves.
\<close>

fun js_find :: "(json \<Rightarrow> bool option) \<Rightarrow> json list \<Rightarrow> json option" where
  "js_find p [] = Some JUndefined"
| "js_find p (x # xs) =
     (case p x of None \<Rightarrow> None | Some b \<Rightarrow> if b then Some x else js_find p xs)"

fun js_some :: "(json \<Rightarrow> bool option) \<Rightarrow> json list \<Rightarrow> bool option" where
  "js_some p [] = Some False"
| "js_some p (x # xs) =
     (case p x of None \<Rightarrow> None | Some b \<Rightarrow> if b then Some True else js_some p xs)"

fun js_filter :: "(json \<Rightarrow> bool option) \<Rightarrow> json list \<Rightarrow> json list option" where
  "js_filter p [] = Some []"
| "js_filter p (x # xs) =
     (case p x of None \<Rightarrow> None
      | Some b \<Rightarrow> (case js_filter p xs of None \<Rightarrow> None
                  | Some ys \<Rightarrow> Some (if b then x # ys else ys)))"

fun js_map :: "(json \<Rightarrow> json option) \<Rightarrow> json list \<Rightarrow> json list option" where
  "js_map f [] = Some []"
| "js_map f (x # xs) =
     (case f x of None \<Rightarrow> None
      | Some y \<Rightarrow> (case js_map f xs of None \<Rightarrow> None | Some ys \<Rightarrow> Some (y # ys)))"

text \<open>\<^verbatim>\<open>Array.prototype.join\<close> over values.\<close>

definition js_join :: "string \<Rightarrow> json list \<Rightarrow> string option" where
  "js_join sep xs =
     (let ss = map (\<lambda>x. if x = JNull \<or> x = JUndefined then Some [] else js_ToString x) xs
      in if None \<in> set ss then None else Some (join_with sep (map the ss)))"

text \<open>
  \<^verbatim>\<open>a === b\<close> and the \<^verbatim>\<open>SameValueZero\<close> of \<^verbatim>\<open>Set\<close> on parsed values: primitives
  compare by value; two arrays or objects are distinct references (each response and
  each load parses afresh), so they never compare equal. (The audit line of
  \<^verbatim>\<open>verifyOrdersBelongToVendor\<close> also compares the id of a verified order with
  itself; for an array or object id this changes only which ids that line lists.)
\<close>

fun isPrimitive :: "json \<Rightarrow> bool" where
  "isPrimitive (JArr xs) = False"
| "isPrimitive (JObj kvs) = False"
| "isPrimitive v = True"

definition js_strict_equals :: "json \<Rightarrow> json \<Rightarrow> bool" where
  "js_strict_equals a b = (isPrimitive a \<and> a = b)"

text \<open>
  \<^verbatim>\<open>String.prototype.trim\<close>. A string is the list of its UTF-8 bytes; the white
  space and line terminators that \<^verbatim>\<open>trim\<close> removes are, as byte sequences: TAB, LF,
  VT, FF, CR, SPACE, U+00A0, U+1680, U+2000 to U+200A, U+2028, U+2029, U+202F, U+205F,
  U+3000 and U+FEFF.
\<close>

definition whiteSpace :: "string list" where
  "whiteSpace =
     [[CHR 0x09], [CHR 0x0A], [CHR 0x0B], [CHR 0x0C], [CHR 0x0D], [CHR 0x20],
      [CHR 0xC2, CHR 0xA0], [CHR 0xE1, CHR 0x9A, CHR 0x80],
      [CHR 0xE2, CHR 0x80, CHR 0x80], [CHR 0xE2, CHR 0x80, CHR 0x81],
      [CHR 0xE2, CHR 0x80, CHR 0x82], [CHR 0xE2, CHR 0x80, CHR 0x83],
      [CHR 0xE2, CHR 0x80, CHR 0x84], [CHR 0xE2, CHR 0x80, CHR 0x85],
      [CHR 0xE2, CHR 0x80, CHR 0x86], [CHR 0xE2, CHR 0x80, CHR 0x87],
      [CHR 0xE2, CHR 0x80, CHR 0x88], [CHR 0xE2, CHR 0x80, CHR 0x89],
      [CHR 0xE2, CHR 0x80, CHR 0x8A], [CHR 0xE2, CHR 0x80, CHR 0xA8],
      [CHR 0xE2, CHR 0x80, CHR 0xA9], [CHR 0xE2, CHR 0x80, CHR 0xAF],
      [CHR 0xE2, CHR 0x81, CHR 0x9F], [CHR 0xE3, CHR 0x80, CHR 0x80],
      [CHR 0xEF, CHR 0xBB, CHR 0xBF]]"

text \<open>Removes, repeatedly, a sequence of \<open>ws\<close> that starts the string.\<close>

function stripLeading :: "string list \<Rightarrow> string \<Rightarrow> string" where
  "stripLeading ws s =
     (case find (\<lambda>w. w \<noteq> [] \<and> prefix w s) ws of
        None \<Rightarrow> s
      | Some w \<Rightarrow> stripLeading ws (drop (length w) s))"
  by pat_completeness auto
termination
proof (relation "measure (\<lambda>(ws, s). length s)")
  show "wf (measure (\<lambda>(ws, s). length s))" by simp
next
  fix ws :: "string list" and s w :: string
  assume "find (\<lambda>w. w \<noteq> [] \<and> prefix w s) ws = Some w"
  then have "w \<noteq> []" "prefix w s" by (auto simp: find_Some_iff)
  then show "((ws, drop (length w) s), (ws, s)) \<in> measure (\<lambda>(ws, s). length s)"
    by (auto simp: prefix_def)
qed

declare stripLeading.simps [simp del]

definition js_trim :: "string \<Rightarrow> string" where
  "js_trim s = rev (stripLeading (map rev whiteSpace) (rev (stripLeading whiteSpace s)))"

section \<open>Vendor-ownership verifier\<close>

text \<open>
  The callback of \<^verbatim>\<open>meta_data.find\<close> in \<^verbatim>\<open>orderBelongsToVendor\<close>:
  \<^verbatim>\<open>(meta.key === k1 || ... ) && meta.value && meta.value.toString() === vendorIdStr\<close>.
\<close>

definition vendorMetaMatches :: "string list \<Rightarrow> string \<Rightarrow> json \<Rightarrow> bool option" where
  "vendorMetaMatches keys vendorIdStr meta =
     (case js_get meta ''key'' of
        None \<Rightarrow> None
      | Some k \<Rightarrow>
          if k \<notin> set (map JStr keys) then Some False
          else (case js_get meta ''value'' of
                  None \<Rightarrow> None
                | Some v \<Rightarrow>
                    if \<not> js_truthy v then Some False
                    else map_option (\<lambda>s. s = vendorIdStr) (js_toString v)))"

definition orderMetaKeys :: "string list" where
  "orderMetaKeys = [''_dokan_vendor_id'', ''dokan_vendor_id'', ''_vendor_id'', ''vendor_id'',
                    ''_store_id'', ''store_owner_id'']"

definition itemMetaKeys :: "string list" where
  "itemMetaKeys = [''_dokan_vendor_id'', ''vendor_id'', ''_vendor_id'']"

definition possibleFields :: "string list" where
  "possibleFields = [''store_id'', ''vendor_id'', ''seller_id'', ''store_owner_id'',
                     ''dokan_vendor_id'']"

text \<open>
  \<^verbatim>\<open>if (x.meta_data && Array.isArray(x.meta_data)) { const vendorMeta = x.meta_data.find(...);
  if (vendorMeta) return true }\<close>, for the order (check 1) and for a line item (check 2).
\<close>

definition metaDataHasVendor :: "string list \<Rightarrow> string \<Rightarrow> json \<Rightarrow> bool option" where
  "metaDataHasVendor keys vendorIdStr x =
     (case js_get x ''meta_data'' of
        None \<Rightarrow> None
      | Some md \<Rightarrow>
          if js_truthy md \<and> isArray md
          then map_option js_truthy (js_find (vendorMetaMatches keys vendorIdStr) (elements md))
          else Some False)"

text \<open>\<^verbatim>\<open>x[field] && x[field].toString() === vendorIdStr\<close>.\<close>

definition fieldIsVendor :: "string \<Rightarrow> json \<Rightarrow> string \<Rightarrow> bool option" where
  "fieldIsVendor vendorIdStr x field =
     (case js_get x field of
        None \<Rightarrow> None
      | Some v \<Rightarrow>
          if \<not> js_truthy v then Some False
          else map_option (\<lambda>s. s = vendorIdStr) (js_toString v))"

text \<open>The loop \<^verbatim>\<open>for (const item of order.line_items)\<close> of check 2.\<close>

fun lineItemsHaveVendor :: "string \<Rightarrow> json list \<Rightarrow> bool option" where
  "lineItemsHaveVendor vendorIdStr [] = Some False"
| "lineItemsHaveVendor vendorIdStr (item # items) =
     (case metaDataHasVendor itemMetaKeys vendorIdStr item of
        None \<Rightarrow> None
      | Some True \<Rightarrow> Some True
      | Some False \<Rightarrow>
          (case fieldIsVendor vendorIdStr item ''vendor_id'' of
             None \<Rightarrow> None
           | Some True \<Rightarrow> Some True
           | Some False \<Rightarrow> lineItemsHaveVendor vendorIdStr items))"

text \<open>The loop \<^verbatim>\<open>for (const field of possibleFields)\<close> of check 3.\<close>

fun fieldsHaveVendor :: "string \<Rightarrow> json \<Rightarrow> string list \<Rightarrow> bool option" where
  "fieldsHaveVendor vendorIdStr order [] = Some False"
| "fieldsHaveVendor vendorIdStr order (field # fields) =
     (case fieldIsVendor vendorIdStr order field of
        None \<Rightarrow> None
      | Some True \<Rightarrow> Some True
      | Some False \<Rightarrow> fieldsHaveVendor vendorIdStr order fields)"

text \<open>
  The body of the \<^verbatim>\<open>try\<close> block of \<^verbatim>\<open>orderBelongsToVendor\<close>; \<open>None\<close> is an
  exception raised inside it. The first audit line formats \<^verbatim>\<open>order.id\<close>.
\<close>

definition orderBelongsToVendor_try :: "json \<Rightarrow> json \<Rightarrow> bool option" where
  "orderBelongsToVendor_try order vendorId =
     (if \<not> js_truthy order \<or> \<not> js_truthy vendorId then Some False
      else do {
        vendorIdStr \<leftarrow> js_toString vendorId;
        orderId \<leftarrow> js_get order ''id'';
        _ \<leftarrow> js_ToString orderId;
        byMeta \<leftarrow> metaDataHasVendor orderMetaKeys vendorIdStr order;
        if byMeta then Some True
        else do {
          lineItems \<leftarrow> js_get order ''line_items'';
          byItems \<leftarrow> (if js_truthy lineItems \<and> isArray lineItems
                      then lineItemsHaveVendor vendorIdStr (elements lineItems)
                      else Some False);
          if byItems then Some True
          else fieldsHaveVendor vendorIdStr order possibleFields
        }
      })"

text \<open>\<^verbatim>\<open>orderBelongsToVendor\<close>: the \<^verbatim>\<open>catch\<close> turns every exception into \<^verbatim>\<open>false\<close>.\<close>

definition orderBelongsToVendor :: "json \<Rightarrow> json \<Rightarrow> bool" where
  "orderBelongsToVendor order vendorId =
     (case orderBelongsToVendor_try order vendorId of None \<Rightarrow> False | Some b \<Rightarrow> b)"

text \<open>
  Where ownership evidence is stored, for stating properties: the values of the
  order-level meta entries under a vendor-id alias key, of the line-item meta entries
  under the narrower alias set and each line item's \<^verbatim>\<open>vendor_id\<close>, and of the fixed
  top-level fields. \<open>propOf\<close> reads a property without raising.
\<close>

definition propOf :: "json \<Rightarrow> string \<Rightarrow> json" where
  "propOf x k = (case js_get x k of None \<Rightarrow> JUndefined | Some v \<Rightarrow> v)"

definition vendorMetaEntries :: "string list \<Rightarrow> json \<Rightarrow> json list" where
  "vendorMetaEntries keys x =
     filter (\<lambda>m. propOf m ''key'' \<in> set (map JStr keys)) (elements (propOf x ''meta_data''))"

definition evidenceValues :: "json \<Rightarrow> json list" where
  "evidenceValues order =
     map (\<lambda>m. propOf m ''value'') (vendorMetaEntries orderMetaKeys order)
     @ concat (map (\<lambda>item. map (\<lambda>m. propOf m ''value'') (vendorMetaEntries itemMetaKeys item)
                             @ [propOf item ''vendor_id''])
                   (elements (propOf order ''line_items'')))
     @ map (propOf order) possibleFields"

definition carriesEvidence :: "json \<Rightarrow> bool" where
  "carriesEvidence order =
     (vendorMetaEntries orderMetaKeys order \<noteq> []
      \<or> (\<exists>item \<in> set (elements (propOf order ''line_items'')).
            vendorMetaEntries itemMetaKeys item \<noteq> [] \<or> propOf item ''vendor_id'' \<noteq> JUndefined)
      \<or> (\<exists>field \<in> set possibleFields. propOf order field \<noteq> JUndefined))"

text \<open>A stored value that counts as the vendor: truthy, with the vendor id's text.\<close>

definition matchingValue :: "string \<Rightarrow> json \<Rightarrow> bool" where
  "matchingValue s v = (js_truthy v \<and> js_toString v = Some s)"

text \<open>
  \<^verbatim>\<open>verifyOrdersBelongToVendor(orders, vendorId)\<close> on an array and a string vendor id
  (its callers pass a trimmed string). When orders were discarded, the audit line
  collects and joins the blocked ids, which reads \<^verbatim>\<open>order.id\<close> of every order.
\<close>

definition blockedIds :: "json list \<Rightarrow> json list \<Rightarrow> json list option" where
  "blockedIds orders verifiedOrders =
     (case js_filter
             (\<lambda>order. map_option Not
                (js_some (\<lambda>vo. case js_get vo ''id'' of
                                  None \<Rightarrow> None
                                | Some a \<Rightarrow> map_option (js_strict_equals a) (js_get order ''id''))
                         verifiedOrders))
             orders of
        None \<Rightarrow> None
      | Some blocked \<Rightarrow> js_map (\<lambda>order. js_get order ''id'') blocked)"

definition verifyOrdersBelongToVendor :: "json list \<Rightarrow> string \<Rightarrow> json list option" where
  "verifyOrdersBelongToVendor orders vendorId =
     (if vendorId = [] then Some []
      else let verifiedOrders = filter (\<lambda>order. orderBelongsToVendor order (JStr vendorId)) orders
           in if length verifiedOrders < length orders
              then (case blockedIds orders verifiedOrders of
                      None \<Rightarrow> None
                    | Some ids \<Rightarrow> map_option (\<lambda>line. verifiedOrders) (js_join '', '' ids))
              else Some verifiedOrders)"

section \<open>Vendor-order fetcher\<close>

record config =
  apiUrl :: string
  username :: string
  password :: string
  vendorId :: string
  checkInterval :: "int option"

text \<open>
  The six requests of a polling cycle, each issued at most once in a cycle:
  \<^item> \<open>WcVendorParam\<close>: \<^verbatim>\<open>/wc/v3/orders\<close> with the caller's parameters
    (\<^verbatim>\<open>status=processing\<close>, \<^verbatim>\<open>per_page=20\<close>, \<^verbatim>\<open>vendor_id\<close>);
  \<^item> \<open>WcMetaQuery\<close>: \<^verbatim>\<open>/wc/v3/orders\<close> with the structured \<^verbatim>\<open>meta_query\<close>;
  \<^item> \<open>WcProcessing50\<close>: \<^verbatim>\<open>/wc/v3/orders\<close> with \<^verbatim>\<open>status=processing\<close>, \<^verbatim>\<open>per_page=50\<close>;
  \<^item> \<open>DokanOrders\<close>: \<^verbatim>\<open>/dokan/v1/orders\<close>;
  \<^item> \<open>WcMetaQueryJson\<close>: \<^verbatim>\<open>/wc/v3/orders\<close> with \<^verbatim>\<open>meta_query\<close> as a JSON string;
  \<^item> \<open>WcRecent50\<close>: \<^verbatim>\<open>/wc/v3/orders\<close> with \<^verbatim>\<open>status=processing\<close>, \<^verbatim>\<open>per_page=50\<close>,
    newest first.

  The remote API is a function from the request to the array in
  \<^verbatim>\<open>response.data\<close>, \<open>None\<close> when \<^verbatim>\<open>axios.get\<close> rejects.
\<close>

datatype request =
    WcVendorParam
  | WcMetaQuery
  | WcProcessing50
  | DokanOrders
  | WcMetaQueryJson
  | WcRecent50

type_synonym api = "request \<Rightarrow> json list option"

text \<open>The inline filter of the third attempt of \<^verbatim>\<open>getWooCommerceOrders\<close>.\<close>

definition dokanMetaFilter :: "config \<Rightarrow> json list \<Rightarrow> json list option" where
  "dokanMetaFilter cfg orders =
     js_filter
       (\<lambda>order. case js_get order ''meta_data'' of
                  None \<Rightarrow> None
                | Some md \<Rightarrow>
                    if \<not> js_truthy md \<or> \<not> isArray md then Some False
                    else js_some
                           (\<lambda>meta. case js_get meta ''key'' of
                                      None \<Rightarrow> None
                                    | Some k \<Rightarrow>
                                        if k = JStr ''_dokan_vendor_id'' \<or> k = JStr ''dokan_vendor_id''
                                        then (case js_get meta ''value'' of
                                                None \<Rightarrow> None
                                              | Some v \<Rightarrow> map_option (\<lambda>s. s = vendorId cfg) (js_toString v))
                                        else Some False)
                           (elements md))
       orders"

text \<open>
  \<^verbatim>\<open>getWooCommerceOrders(config, params)\<close> as the cycle calls it (\<^verbatim>\<open>params\<close> carrying
  \<^verbatim>\<open>vendor_id\<close>): the requests issued, in order, and the returned array or \<open>None\<close>
  when it throws.
\<close>

definition wooThirdAttempt :: "api \<Rightarrow> config \<Rightarrow> request list \<Rightarrow> request list \<times> json list option" where
  "wooThirdAttempt api cfg sent =
     (case api WcProcessing50 of
        None \<Rightarrow> (sent @ [WcProcessing50], None)
      | Some data \<Rightarrow>
          if data \<noteq> [] then (sent @ [WcProcessing50], dokanMetaFilter cfg data)
          else (sent @ [WcProcessing50], Some []))"

definition wooSecondAttempt :: "api \<Rightarrow> config \<Rightarrow> request list \<Rightarrow> request list \<times> json list option" where
  "wooSecondAttempt api cfg sent =
     (if vendorId cfg \<noteq> [] \<and> js_trim (vendorId cfg) \<noteq> []
      then (case api WcMetaQuery of
              None \<Rightarrow> wooThirdAttempt api cfg (sent @ [WcMetaQuery])
            | Some data \<Rightarrow>
                if data \<noteq> [] then (sent @ [WcMetaQuery], Some data)
                else wooThirdAttempt api cfg (sent @ [WcMetaQuery]))
      else wooThirdAttempt api cfg sent)"

definition getWooCommerceOrders :: "api \<Rightarrow> config \<Rightarrow> request list \<times> json list option" where
  "getWooCommerceOrders api cfg =
     (case api WcVendorParam of
        None \<Rightarrow> wooSecondAttempt api cfg [WcVendorParam]
      | Some data \<Rightarrow>
          if data \<noteq> [] then ([WcVendorParam], Some data)
          else wooSecondAttempt api cfg [WcVendorParam])"

definition getDokanOrders :: "api \<Rightarrow> request list \<times> json list option" where
  "getDokanOrders api =
     (case api DokanOrders of
        Some data \<Rightarrow> ([DokanOrders], Some data)
      | None \<Rightarrow> ([DokanOrders, WcMetaQueryJson], api WcMetaQueryJson))"

text \<open>\<^verbatim>\<open>getAllOrdersAndFilter\<close>: every exception ends in the empty array.\<close>

definition getAllOrdersAndFilter :: "api \<Rightarrow> config \<Rightarrow> string \<Rightarrow> request list \<times> json list" where
  "getAllOrdersAndFilter api cfg vid =
     (if apiUrl cfg = [] \<or> username cfg = [] \<or> password cfg = [] then ([], [])
      else if vid = [] \<or> js_trim vid = [] then ([], [])
      else (case api WcRecent50 of
              None \<Rightarrow> ([WcRecent50], [])
            | Some allOrders \<Rightarrow>
                ([WcRecent50],
                 case verifyOrdersBelongToVendor allOrders vid of None \<Rightarrow> [] | Some vs \<Rightarrow> vs)))"

text \<open>
  The retrieval block of \<^verbatim>\<open>checkForNewOrders\<close> (the nested \<^verbatim>\<open>try\<close> that assigns
  \<^verbatim>\<open>orders\<close>): the requests issued, in order, and the fetched array.
\<close>

definition fetchOrders :: "api \<Rightarrow> config \<Rightarrow> string \<Rightarrow> request list \<times> json list" where
  "fetchOrders api cfg vid =
     (case getWooCommerceOrders api cfg of
        (sent1, None) \<Rightarrow>
          (case getAllOrdersAndFilter api cfg vid of (sent4, os) \<Rightarrow> (sent1 @ sent4, os))
      | (sent1, Some orders) \<Rightarrow>
          if orders \<noteq> [] then (sent1, orders)
          else (case getDokanOrders api of
                  (sent3, None) \<Rightarrow>
                    (case getAllOrdersAndFilter api cfg vid of
                       (sent4, os) \<Rightarrow> (sent1 @ sent3 @ sent4, os))
                | (sent3, Some dokan) \<Rightarrow>
                    if dokan \<noteq> [] then (sent1 @ sent3, dokan)
                    else (case getAllOrdersAndFilter api cfg vid of
                            (sent4, os) \<Rightarrow> (sent1 @ sent3 @ sent4, os))))"

text \<open>
  The documented escalation, for comparison: direct parameter, structured meta filter,
  vendor endpoint with its meta-filter fallback, then fetch-all-and-filter, each tried
  only while the earlier ones produced no order.
\<close>

definition nonEmptyResult :: "json list option \<Rightarrow> json list option" where
  "nonEmptyResult r = (case r of None \<Rightarrow> None | Some data \<Rightarrow> if data = [] then None else Some data)"

definition documentedFetch :: "api \<Rightarrow> config \<Rightarrow> string \<Rightarrow> json list" where
  "documentedFetch api cfg vid =
     (case nonEmptyResult (api WcVendorParam) of
        Some data \<Rightarrow> data
      | None \<Rightarrow>
          (case nonEmptyResult (api WcMetaQuery) of
             Some data \<Rightarrow> data
           | None \<Rightarrow>
               (case nonEmptyResult (snd (getDokanOrders api)) of
                  Some data \<Rightarrow> data
                | None \<Rightarrow> snd (getAllOrdersAndFilter api cfg vid))))"

section \<open>Processed-order ledger\<close>

text \<open>
  \<^verbatim>\<open>global.processedOrders\<close> is a \<^verbatim>\<open>Set\<close>: its elements in insertion order.
  \<^verbatim>\<open>has\<close> and \<^verbatim>\<open>add\<close> compare with \<^verbatim>\<open>SameValueZero\<close>; \<^verbatim>\<open>new Set(x)\<close> iterates
  an array or a string, is empty for \<^verbatim>\<open>null\<close> and \<^verbatim>\<open>undefined\<close>, and raises on
  any other value.
\<close>

definition setHas :: "json list \<Rightarrow> json \<Rightarrow> bool" where
  "setHas ids x = (\<exists>y \<in> set ids. js_strict_equals y x)"

definition setAdd :: "json list \<Rightarrow> json \<Rightarrow> json list" where
  "setAdd ids x = (if setHas ids x then ids else ids @ [x])"

definition newSet :: "json \<Rightarrow> json list option" where
  "newSet x =
     (case x of
        JNull \<Rightarrow> Some []
      | JUndefined \<Rightarrow> Some []
      | JArr xs \<Rightarrow> Some (foldl setAdd [] xs)
      | JStr s \<Rightarrow> Some (foldl setAdd [] (map (\<lambda>c. JStr [c]) s))
      | _ \<Rightarrow> None)"

text \<open>A list that is the content of a \<^verbatim>\<open>Set\<close>: no primitive occurs twice.\<close>

definition isSetContent :: "json list \<Rightarrow> bool" where
  "isSetContent ids = distinct (filter isPrimitive ids)"

text \<open>
  A value that JSON writes and reads back as the same value: \<^verbatim>\<open>null\<close>, a boolean,
  a number or a string.
\<close>

definition isJsonPrimitive :: "json \<Rightarrow> bool" where
  "isJsonPrimitive x = (isPrimitive x \<and> x \<noteq> JUndefined)"

text \<open>
  The value \<^verbatim>\<open>JSON.parse\<close> returns for the text \<^verbatim>\<open>JSON.stringify\<close> writes for an
  array or object: \<^verbatim>\<open>undefined\<close> becomes \<^verbatim>\<open>null\<close> in an array and drops its key
  in an object.
\<close>

fun parseOfStringify :: "json \<Rightarrow> json"
  and parseOfStringify_elems :: "json list \<Rightarrow> json list"
  and parseOfStringify_props :: "(string \<times> json) list \<Rightarrow> (string \<times> json) list" where
  "parseOfStringify JNull = JNull"
| "parseOfStringify JUndefined = JUndefined"
| "parseOfStringify (JBool b) = JBool b"
| "parseOfStringify (JNum n) = JNum n"
| "parseOfStringify (JStr s) = JStr s"
| "parseOfStringify (JArr xs) = JArr (parseOfStringify_elems xs)"
| "parseOfStringify (JObj kvs) = JObj (parseOfStringify_props kvs)"
| "parseOfStringify_elems [] = []"
| "parseOfStringify_elems (x # xs) =
     (if x = JUndefined then JNull else parseOfStringify x) # parseOfStringify_elems xs"
| "parseOfStringify_props [] = []"
| "parseOfStringify_props ((k, v) # kvs) =
     (if v = JUndefined then parseOfStringify_props kvs
      else (k, parseOfStringify v) # parseOfStringify_props kvs)"

text \<open>
  The state of the module: the global set (\<open>None\<close> while \<^verbatim>\<open>global.processedOrders\<close>
  is undefined), the file \<^verbatim>\<open>data/processed_orders.json\<close> (absent, unreadable as
  JSON, or the value its text parses to), whether the directory and file can be
  written, \<^verbatim>\<open>isListening\<close>, and the delay in milliseconds of the armed interval
  timer (\<open>None\<close> when \<^verbatim>\<open>intervalId\<close> is null).
\<close>

datatype stateFileContent = NoFile | Unreadable | Parsed json

record listener =
  processedOrders :: "json list option"
  stateFile :: stateFileContent
  diskWritable :: bool
  isListening :: bool
  intervalId :: "int option"

definition ledgerDocument :: "json list \<Rightarrow> string \<Rightarrow> json" where
  "ledgerDocument ids now = JObj [(''orders'', JArr ids), (''lastUpdate'', JStr now)]"

text \<open>\<^verbatim>\<open>saveProcessedOrdersState()\<close>; \<open>now\<close> is \<^verbatim>\<open>new Date().toISOString()\<close>.\<close>

definition saveProcessedOrdersState :: "string \<Rightarrow> listener \<Rightarrow> bool \<times> listener" where
  "saveProcessedOrdersState now s =
     (if \<not> diskWritable s then (False, s)
      else (True,
            s\<lparr>stateFile :=
                Parsed (parseOfStringify
                  (ledgerDocument (case processedOrders s of None \<Rightarrow> [] | Some ids \<Rightarrow> ids) now))\<rparr>))"

text \<open>
  \<^verbatim>\<open>loadProcessedOrdersState()\<close>: the \<^verbatim>\<open>catch\<close> covers an unreadable file, a
  document whose \<^verbatim>\<open>orders\<close> cannot be iterated, and the formatting of
  \<^verbatim>\<open>data.lastUpdate\<close> in the log line after the set was assigned.
\<close>

definition loadProcessedOrdersState :: "listener \<Rightarrow> bool \<times> listener" where
  "loadProcessedOrdersState s =
     (case stateFile s of
        NoFile \<Rightarrow> (True, s\<lparr>processedOrders := Some []\<rparr>)
      | Unreadable \<Rightarrow> (False, s\<lparr>processedOrders := Some []\<rparr>)
      | Parsed data \<Rightarrow>
          (case js_get data ''orders'' of
             None \<Rightarrow> (False, s\<lparr>processedOrders := Some []\<rparr>)
           | Some orders \<Rightarrow>
               (case newSet orders of
                  None \<Rightarrow> (False, s\<lparr>processedOrders := Some []\<rparr>)
                | Some ids \<Rightarrow>
                    (case js_ToString (propOf data ''lastUpdate'') of
                       None \<Rightarrow> (False, s\<lparr>processedOrders := Some []\<rparr>)
                     | Some line \<Rightarrow> (True, s\<lparr>processedOrders := Some ids\<rparr>)))))"

section \<open>Polling loop\<close>

text \<open>
  \<^verbatim>\<open>stopOrderListener()\<close> of \<^verbatim>\<open>src/api.js\<close>: clears the timer, saves the set when
  it exists, resets \<^verbatim>\<open>isListening\<close>.
\<close>

definition stopOrderListener :: "string \<Rightarrow> listener \<Rightarrow> bool \<times> listener" where
  "stopOrderListener now s =
     (let s1 = s\<lparr>intervalId := None\<rparr>;
          s2 = (if processedOrders s1 \<noteq> None then snd (saveProcessedOrdersState now s1) else s1)
      in (True, s2\<lparr>isListening := False\<rparr>))"

text \<open>
  \<^verbatim>\<open>startOrderListener(config, callback)\<close>. \<open>autoVendorId\<close> is what
  \<^verbatim>\<open>getVendorIdFromCredentials\<close> answers from the network (a string, empty on
  failure); it is consulted only when no vendor id is configured. The result is the
  new state and the configuration in use, \<open>None\<close> when the function throws. The
  first \<^verbatim>\<open>checkForNewOrders\<close> is started without being awaited: its requests are
  pending when the timer is armed, so its effect is a later \<open>checkForNewOrders\<close> step.
\<close>

definition startOrderListener ::
  "string \<Rightarrow> string \<Rightarrow> config \<Rightarrow> listener \<Rightarrow> listener \<times> config option" where
  "startOrderListener now autoVendorId cfg s =
     (let s1 = (if isListening s then snd (stopOrderListener now s) else s);
          missing = (vendorId cfg = [] \<or> js_trim (vendorId cfg) = [])
      in if missing \<and> autoVendorId = [] then (s1, None)
         else
           let cfg' = (if missing then cfg\<lparr>vendorId := autoVendorId\<rparr> else cfg);
               s2 = snd (loadProcessedOrdersState (s1\<lparr>isListening := True\<rparr>));
               s3 = (if processedOrders s2 = None then s2\<lparr>processedOrders := Some []\<rparr> else s2);
               intervalMs = (case checkInterval cfg' of
                               None \<Rightarrow> 60
                             | Some n \<Rightarrow> if n = 0 then 60 else n) * 1000
           in (s3\<lparr>intervalId := Some intervalMs\<rparr>, Some cfg'))"

text \<open>
  The dispatch callback, as the loop sees it: it returns (perhaps a promise, which the
  loop does not await) or throws.
\<close>

datatype callbackResult = Returned | Threw

text \<open>
  The security filter and the ledger filter of \<^verbatim>\<open>checkForNewOrders\<close>
  (\<^verbatim>\<open>verifyOrdersBelongToVendor\<close>, then \<^verbatim>\<open>!global.processedOrders.has(order.id)\<close>).
\<close>

definition newOrdersFor :: "json list \<Rightarrow> string \<Rightarrow> json list \<Rightarrow> json list option" where
  "newOrdersFor orders vid ids =
     (case verifyOrdersBelongToVendor orders vid of
        None \<Rightarrow> None
      | Some verified \<Rightarrow>
          js_filter (\<lambda>order. map_option (\<lambda>i. \<not> setHas ids i) (js_get order ''id'')) verified)"

text \<open>
  The loop \<^verbatim>\<open>for (const order of newOrders)\<close>: the set after it, the orders handed
  to the callback in order, and whether the loop ran to its end (\<open>False\<close>: an
  exception left it).
\<close>

fun dispatchLoop ::
  "(json \<Rightarrow> callbackResult) \<Rightarrow> string \<Rightarrow> json list \<Rightarrow> json list
     \<Rightarrow> json list \<times> json list \<times> bool" where
  "dispatchLoop callback vid [] ids = (ids, [], True)"
| "dispatchLoop callback vid (order # rest) ids =
     (if orderBelongsToVendor order (JStr vid)
      then (case js_get order ''id'' of
              None \<Rightarrow> (ids, [], False)
            | Some i \<Rightarrow>
                (case js_ToString i of
                   None \<Rightarrow> (setAdd ids i, [], False)
                 | Some line \<Rightarrow>
                     (case callback order of
                        Threw \<Rightarrow> (setAdd ids i, [order], False)
                      | Returned \<Rightarrow>
                          (case dispatchLoop callback vid rest (setAdd ids i) of
                             (ids', delivered, completed) \<Rightarrow> (ids', order # delivered, completed)))))
      else (case js_get order ''id'' of
              None \<Rightarrow> (ids, [], False)
            | Some i \<Rightarrow>
                (case js_ToString i of
                   None \<Rightarrow> (ids, [], False)
                 | Some line \<Rightarrow> dispatchLoop callback vid rest ids)))"

text \<open>
  After the loop: save, and when the set holds more than 1000 ids, keep
  \<^verbatim>\<open>ordersArray.slice(-500)\<close> and save again.
\<close>

definition saveAndPrune :: "string \<Rightarrow> listener \<Rightarrow> listener" where
  "saveAndPrune now s =
     (let s1 = snd (saveProcessedOrdersState now s);
          ordersArray = (case processedOrders s1 of None \<Rightarrow> [] | Some ids \<Rightarrow> ids)
      in if length ordersArray > 1000
         then snd (saveProcessedOrdersState now
                (s1\<lparr>processedOrders :=
                      Some (foldl setAdd [] (drop (length ordersArray - 500) ordersArray))\<rparr>))
         else s1)"

text \<open>
  The part of a cycle from the fetch to the end of the loop, on the ids of the set:
  \<open>None\<close> when the cycle ends before the loop (nothing fetched, an exception in the
  filters, or no new order).
\<close>

definition dispatchBatch ::
  "api \<Rightarrow> (json \<Rightarrow> callbackResult) \<Rightarrow> config \<Rightarrow> json list
     \<Rightarrow> (json list \<times> json list \<times> bool) option" where
  "dispatchBatch api callback cfg ids =
     (let vid = js_trim (vendorId cfg);
          orders = snd (fetchOrders api cfg vid)
      in if orders = [] then None
         else (case newOrdersFor orders vid ids of
                 None \<Rightarrow> None
               | Some newOrders \<Rightarrow>
                   if newOrders = [] then None
                   else Some (dispatchLoop callback vid newOrders ids)))"

text \<open>
  \<^verbatim>\<open>checkForNewOrders(config, callback)\<close>, one polling cycle: the new state and the
  orders handed to the callback, in order. From the end of the fetch on the cycle has
  no \<^verbatim>\<open>await\<close>, so it is one step on the state. The outer \<^verbatim>\<open>catch\<close> ends the
  cycle at any exception, before the save.
\<close>

definition checkForNewOrders ::
  "api \<Rightarrow> (json \<Rightarrow> callbackResult) \<Rightarrow> string \<Rightarrow> config \<Rightarrow> listener
     \<Rightarrow> listener \<times> json list" where
  "checkForNewOrders api callback now cfg s =
     (if vendorId cfg = [] \<or> js_trim (vendorId cfg) = [] then (s, [])
      else
        let ids = (case processedOrders s of None \<Rightarrow> [] | Some ids \<Rightarrow> ids);
            s1 = s\<lparr>processedOrders := Some ids\<rparr>
        in case dispatchBatch api callback cfg ids of
             None \<Rightarrow> (s1, [])
           | Some (ids', delivered, completed) \<Rightarrow>
               (if completed then saveAndPrune now (s1\<lparr>processedOrders := Some ids'\<rparr>)
                else s1\<lparr>processedOrders := Some ids'\<rparr>,
                delivered))"

section \<open>The local filter stage and sample inputs\<close>

text \<open>
  The third attempt of \<^verbatim>\<open>getWooCommerceOrders\<close> as a stage of its own: up to 50
  processing orders, filtered locally by the Dokan meta keys; \<open>None\<close> when the request
  or the filter fails.
\<close>

definition localFilterStage :: "api \<Rightarrow> config \<Rightarrow> json list option" where
  "localFilterStage api cfg =
     (case api WcProcessing50 of
        None \<Rightarrow> None
      | Some data \<Rightarrow> if data = [] then Some [] else dokanMetaFilter cfg data)"

text \<open>An order annotated with the vendor in its \<^verbatim>\<open>_dokan_vendor_id\<close> meta entry.\<close>

definition ownedOrder :: "int \<Rightarrow> string \<Rightarrow> json" where
  "ownedOrder n vid =
     JObj [(''id'', JNum n),
           (''meta_data'', JArr [JObj [(''key'', JStr ''_dokan_vendor_id''), (''value'', JStr vid)]])]"

text \<open>An order of vendor 7 that has no \<^verbatim>\<open>id\<close>.\<close>

definition orderWithoutId :: json where
  "orderWithoutId =
     JObj [(''meta_data'', JArr [JObj [(''key'', JStr ''_dokan_vendor_id''), (''value'', JStr ''7'')]])]"

text \<open>A store that answers the direct vendor-id query and no other request.\<close>

fun respondsDirect :: "json list \<Rightarrow> api" where
  "respondsDirect orders WcVendorParam = Some orders"
| "respondsDirect orders WcMetaQuery = None"
| "respondsDirect orders WcProcessing50 = None"
| "respondsDirect orders DokanOrders = None"
| "respondsDirect orders WcMetaQueryJson = None"
| "respondsDirect orders WcRecent50 = None"

text \<open>
  A store whose direct and meta queries find nothing, whose unfiltered listing holds
  an order of vendor 7, and whose vendor endpoint would return two orders.
\<close>

fun localFilterFirstApi :: api where
  "localFilterFirstApi WcVendorParam = Some []"
| "localFilterFirstApi WcMetaQuery = Some []"
| "localFilterFirstApi WcProcessing50 = Some [ownedOrder 201 ''7'']"
| "localFilterFirstApi DokanOrders = Some [ownedOrder 301 ''7'', ownedOrder 302 ''7'']"
| "localFilterFirstApi WcMetaQueryJson = None"
| "localFilterFirstApi WcRecent50 = None"

text \<open>
  A store whose first three queries find nothing and whose vendor endpoint returns
  two orders.
\<close>

fun vendorEndpointApi :: api where
  "vendorEndpointApi WcVendorParam = Some []"
| "vendorEndpointApi WcMetaQuery = Some []"
| "vendorEndpointApi WcProcessing50 = Some []"
| "vendorEndpointApi DokanOrders = Some [ownedOrder 301 ''7'', ownedOrder 302 ''7'']"
| "vendorEndpointApi WcMetaQueryJson = None"
| "vendorEndpointApi WcRecent50 = Some [ownedOrder 999 ''7'']"

text \<open>
  A store where the first four stages find nothing and the newest-first listing holds
  an order of vendor 7.
\<close>

fun lastResortApi :: api where
  "lastResortApi WcVendorParam = Some []"
| "lastResortApi WcMetaQuery = Some []"
| "lastResortApi WcProcessing50 = Some []"
| "lastResortApi DokanOrders = Some []"
| "lastResortApi WcMetaQueryJson = None"
| "lastResortApi WcRecent50 = Some [ownedOrder 999 ''7'']"

text \<open>Handlers: one that always returns, one that throws on a given order.\<close>

definition alwaysReturns :: "json \<Rightarrow> callbackResult" where
  "alwaysReturns order = Returned"

definition throwsOn :: "json \<Rightarrow> json \<Rightarrow> callbackResult" where
  "throwsOn bad order = (if order = bad then Threw else Returned)"

text \<open>The ids \<open>a, a + 1, ..., b - 1\<close> as numbers.\<close>

definition numberedIds :: "nat \<Rightarrow> nat \<Rightarrow> json list" where
  "numberedIds a b = map (\<lambda>n. JNum (int n)) [a..<b]"

text \<open>Orders of vendor 7 with the ids \<open>a, ..., b - 1\<close>.\<close>

definition ownedOrders :: "nat \<Rightarrow> nat \<Rightarrow> json list" where
  "ownedOrders a b = map (\<lambda>n. ownedOrder (int n) ''7'') [a..<b]"

definition shopConfig :: config where
  "shopConfig = \<lparr>apiUrl = ''https://loja.example'', username = ''ana'', password = ''segredo'',
                  vendorId = ''7'', checkInterval = Some 60\<rparr>"

section \<open>Properties of the JavaScript layer\<close>

lemma stripLeading_Nil: "stripLeading ws [] = []"
proof -
  have "find (\<lambda>w. w \<noteq> [] \<and> prefix w []) ws = None"
    by (simp add: find_None_iff)
  then show ?thesis by (subst stripLeading.simps) simp
qed

lemma js_trim_Nil: "js_trim [] = []"
  by (simp add: js_trim_def stripLeading_Nil)

lemma stripLeading_seven: "stripLeading whiteSpace ''7'' = ''7''"
  and stripLeading_rev_seven: "stripLeading (map rev whiteSpace) ''7'' = ''7''"
  by (subst stripLeading.simps, simp add: whiteSpace_def)+

lemma trim_seven: "js_trim ''7'' = ''7''"
  by (simp add: js_trim_def stripLeading_seven stripLeading_rev_seven)

lemma shopConfig_vendorId: "vendorId shopConfig = ''7''"
  by (simp add: shopConfig_def)

lemma shopConfig_vendor: "js_trim (vendorId shopConfig) = ''7''"
  by (simp add: shopConfig_vendorId trim_seven)

section \<open>Properties of the verifier\<close>

lemma js_get_propOf: "js_get x k = Some v \<Longrightarrow> propOf x k = v"
  by (simp add: propOf_def)

lemma vendorMetaMatches_char:
  assumes "vendorMetaMatches keys s m = Some b"
  shows "b = (propOf m ''key'' \<in> set (map JStr keys) \<and> js_truthy (propOf m ''value'')
              \<and> js_toString (propOf m ''value'') = Some s)"
  using assms
  by (auto simp: vendorMetaMatches_def propOf_def split: option.splits if_splits)

lemma vendorMetaMatches_truthy:
  assumes "vendorMetaMatches keys s m = Some True"
  shows "js_truthy m"
  using assms
  by (cases m) (auto simp: vendorMetaMatches_def split: option.splits if_splits)

lemma js_find_char:
  assumes "js_find (vendorMetaMatches keys s) ms = Some r"
  shows "js_truthy r = (\<exists>m \<in> set ms. propOf m ''key'' \<in> set (map JStr keys) \<and> matchingValue s (propOf m ''value''))"
  using assms
proof (induction ms)
  case Nil
  then show ?case by simp
next
  case (Cons m ms)
  then show ?case
    by (auto simp: matchingValue_def split: option.splits if_splits
        dest: vendorMetaMatches_char vendorMetaMatches_truthy)
qed

lemma elements_not_array: "\<not> isArray v \<Longrightarrow> elements v = []"
  by (cases v) auto

lemma isArray_truthy: "isArray v \<Longrightarrow> js_truthy v"
  by (cases v) auto

lemma metaDataHasVendor_char:
  assumes "metaDataHasVendor keys s x = Some b"
  shows "b = (\<exists>m \<in> set (vendorMetaEntries keys x). matchingValue s (propOf m ''value''))"
proof -
  from assms obtain md where md: "js_get x ''meta_data'' = Some md"
    by (auto simp: metaDataHasVendor_def split: option.splits)
  then have p: "propOf x ''meta_data'' = md" by (rule js_get_propOf)
  show ?thesis
  proof (cases "isArray md")
    case True
    with assms md obtain r where r: "js_find (vendorMetaMatches keys s) (elements md) = Some r"
      and b: "b = js_truthy r"
      by (auto simp: metaDataHasVendor_def isArray_truthy)
    from js_find_char [OF r] b show ?thesis
      by (auto simp: vendorMetaEntries_def p)
  next
    case False
    with assms md have "b = False"
      by (auto simp: metaDataHasVendor_def)
    with False show ?thesis
      by (simp add: vendorMetaEntries_def p elements_not_array)
  qed
qed

lemma fieldIsVendor_char:
  assumes "fieldIsVendor s x f = Some b"
  shows "b = matchingValue s (propOf x f)"
  using assms
  by (auto simp: fieldIsVendor_def matchingValue_def propOf_def split: option.splits if_splits)

lemma lineItemsHaveVendor_char:
  assumes "lineItemsHaveVendor s items = Some b"
  shows "b = (\<exists>item \<in> set items.
                (\<exists>m \<in> set (vendorMetaEntries itemMetaKeys item). matchingValue s (propOf m ''value''))
                \<or> matchingValue s (propOf item ''vendor_id''))"
  using assms
proof (induction items)
  case Nil
  then show ?case by simp
next
  case (Cons item items)
  then show ?case
    by (auto split: option.splits bool.splits
        dest!: metaDataHasVendor_char fieldIsVendor_char)
qed

lemma fieldsHaveVendor_char:
  assumes "fieldsHaveVendor s order fs = Some b"
  shows "b = (\<exists>f \<in> set fs. matchingValue s (propOf order f))"
  using assms
proof (induction fs)
  case Nil
  then show ?case by simp
next
  case (Cons f fs)
  then show ?case
    by (auto split: option.splits bool.splits dest!: fieldIsVendor_char)
qed

lemma orderBelongsToVendor_try_char:
  assumes "orderBelongsToVendor_try order vendor = Some b"
  shows "b = (js_truthy order \<and> js_truthy vendor
              \<and> (\<exists>s. js_toString vendor = Some s
                     \<and> (\<exists>v \<in> set (evidenceValues order). matchingValue s v)))"
proof (cases "js_truthy order \<and> js_truthy vendor")
  case False
  with assms show ?thesis by (auto simp: orderBelongsToVendor_try_def)
next
  case True
  with assms obtain s where s: "js_toString vendor = Some s"
    by (auto simp: orderBelongsToVendor_try_def split: Option.bind_splits)
  from assms True s obtain byMeta where
    byMeta: "metaDataHasVendor orderMetaKeys s order = Some byMeta"
    by (auto simp: orderBelongsToVendor_try_def split: Option.bind_splits)
  note m1 = metaDataHasVendor_char [OF byMeta]
  show ?thesis
  proof (cases byMeta)
    case True
    with assms \<open>js_truthy order \<and> js_truthy vendor\<close> s byMeta have "b"
      by (auto simp: orderBelongsToVendor_try_def split: Option.bind_splits)
    with m1 True \<open>js_truthy order \<and> js_truthy vendor\<close> s show ?thesis
      by (auto simp: evidenceValues_def)
  next
    case noMeta: False
    from assms True s byMeta noMeta obtain li byItems where
      li: "js_get order ''line_items'' = Some li" and
      byItems: "(if js_truthy li \<and> isArray li then lineItemsHaveVendor s (elements li) else Some False) = Some byItems"
      by (auto simp: orderBelongsToVendor_try_def split: Option.bind_splits)
    have pli: "propOf order ''line_items'' = li" using li by (rule js_get_propOf)
    have m2: "byItems = (\<exists>item \<in> set (elements li).
                (\<exists>m \<in> set (vendorMetaEntries itemMetaKeys item). matchingValue s (propOf m ''value''))
                \<or> matchingValue s (propOf item ''vendor_id''))"
    proof (cases "isArray li")
      case True
      with byItems show ?thesis
        by (auto simp: isArray_truthy dest!: lineItemsHaveVendor_char)
    next
      case False
      with byItems show ?thesis by (auto simp: elements_not_array)
    qed
    show ?thesis
    proof (cases byItems)
      case True
      with assms \<open>js_truthy order \<and> js_truthy vendor\<close> s byMeta noMeta li byItems have "b"
        by (auto simp: orderBelongsToVendor_try_def split: Option.bind_splits if_splits)
      with m2 True \<open>js_truthy order \<and> js_truthy vendor\<close> s show ?thesis
        by (auto simp: evidenceValues_def pli)
    next
      case noItems: False
      with assms True s byMeta noMeta li byItems
      have f: "fieldsHaveVendor s order possibleFields = Some b"
        by (auto simp: orderBelongsToVendor_try_def split: Option.bind_splits if_splits)
      from fieldsHaveVendor_char [OF f] m1 m2 noMeta noItems True s show ?thesis
        by (auto simp: evidenceValues_def pli)
    qed
  qed
qed

lemma orderBelongsToVendor_iff:
  "orderBelongsToVendor order vendor \<longleftrightarrow> orderBelongsToVendor_try order vendor = Some True"
  by (auto simp: orderBelongsToVendor_def split: option.splits)

lemma orderBelongsToVendor_evidence:
  assumes "orderBelongsToVendor order vendor"
  shows "\<exists>v \<in> set (evidenceValues order). js_truthy v \<and> js_toString v = js_toString vendor"
proof -
  from assms have "orderBelongsToVendor_try order vendor = Some True"
    by (simp add: orderBelongsToVendor_iff)
  from orderBelongsToVendor_try_char [OF this] show ?thesis
    by (auto simp: matchingValue_def)
qed

lemma no_evidence_values:
  assumes "\<not> carriesEvidence order" and "v \<in> set (evidenceValues order)"
  shows "v = JUndefined"
  using assms by (auto simp: carriesEvidence_def evidenceValues_def split: if_splits)

text \<open>
  C2. \<^verbatim>\<open>orderBelongsToVendor\<close> never throws: an exception inside it is answered
  \<^verbatim>\<open>false\<close>; it answers \<^verbatim>\<open>false\<close> for a null or missing order, for a null or
  missing vendor id, and for every order that carries no ownership evidence in any of
  the three places (order meta under an alias key, line-item meta or a line item's
  \<^verbatim>\<open>vendor_id\<close>, the fixed top-level fields).
\<close>

theorem orderBelongsToVendor_fail_closed:
  "\<not> orderBelongsToVendor JNull vendor \<and> \<not> orderBelongsToVendor JUndefined vendor
   \<and> \<not> orderBelongsToVendor order JNull \<and> \<not> orderBelongsToVendor order JUndefined
   \<and> (orderBelongsToVendor_try order vendor = None \<longrightarrow> \<not> orderBelongsToVendor order vendor)
   \<and> (\<not> carriesEvidence order \<longrightarrow> \<not> orderBelongsToVendor order vendor)"
proof -
  have "\<not> orderBelongsToVendor order vendor" if "\<not> carriesEvidence order"
  proof
    assume "orderBelongsToVendor order vendor"
    then obtain v where "v \<in> set (evidenceValues order)" "js_truthy v"
      using orderBelongsToVendor_evidence by blast
    with that no_evidence_values show False by fastforce
  qed
  then show ?thesis
    by (simp add: orderBelongsToVendor_def orderBelongsToVendor_try_def)
qed

theorem orderBelongsToVendor_fail_closed_witness:
  "\<not> carriesEvidence (JObj [(''id'', JNum 100), (''status'', JStr ''processing''),
        (''meta_data'', JArr [JObj [(''key'', JStr ''_billing_note''), (''value'', JStr ''7'')]]),
        (''line_items'', JArr [JObj [(''name'', JStr ''Pizza''), (''meta_data'', JArr [])]])])
   \<and> \<not> orderBelongsToVendor (JObj [(''id'', JNum 100), (''status'', JStr ''processing''),
        (''meta_data'', JArr [JObj [(''key'', JStr ''_billing_note''), (''value'', JStr ''7'')]]),
        (''line_items'', JArr [JObj [(''name'', JStr ''Pizza''), (''meta_data'', JArr [])]])]) (JStr ''7'')
   \<and> orderBelongsToVendor_try (JObj [(''id'', JNum 101), (''meta_data'', JArr [JNull])]) (JStr ''7'') = None
   \<and> \<not> orderBelongsToVendor (JObj [(''id'', JNum 101), (''meta_data'', JArr [JNull])]) (JStr ''7'')"
proof -
  let ?o = "JObj [(''id'', JNum 100), (''status'', JStr ''processing''),
        (''meta_data'', JArr [JObj [(''key'', JStr ''_billing_note''), (''value'', JStr ''7'')]]),
        (''line_items'', JArr [JObj [(''name'', JStr ''Pizza''), (''meta_data'', JArr [])]])]"
  let ?r = "JObj [(''id'', JNum 101), (''meta_data'', JArr [JNull])]"
  have h1: "\<not> carriesEvidence ?o"
    by (simp add: carriesEvidence_def vendorMetaEntries_def propOf_def orderMetaKeys_def
        itemMetaKeys_def possibleFields_def)
  have h2: "orderBelongsToVendor_try ?r (JStr ''7'') = None"
    by (simp add: orderBelongsToVendor_try_def js_toString_def number_toString_def
        nat_digits.simps digit_char_def metaDataHasVendor_def vendorMetaMatches_def)
  from orderBelongsToVendor_fail_closed [of "JStr ''7''" ?o] h1
  have c1: "\<not> orderBelongsToVendor ?o (JStr ''7'')" by blast
  from orderBelongsToVendor_fail_closed [of "JStr ''7''" ?r] h2
  have c2: "\<not> orderBelongsToVendor ?r (JStr ''7'')" by blast
  from h1 h2 c1 c2 show ?thesis by blast
qed

text \<open>
  C10. Ownership evidence whose stored value is falsy (0, the empty string, null, or
  absent) never counts: an order is rejected whenever none of its truthy evidence
  values has the vendor id's text. In particular an order whose only annotation has
  the value 0 is rejected for the vendor id \<^verbatim>\<open>"0"\<close>.
\<close>

theorem falsy_evidence_never_matches:
  assumes "\<forall>v \<in> set (evidenceValues order). js_truthy v \<longrightarrow> js_toString v \<noteq> js_toString vendor"
  shows "\<not> orderBelongsToVendor order vendor"
  using assms orderBelongsToVendor_evidence by blast

theorem falsy_evidence_never_matches_witness:
  "evidenceValues (JObj [(''id'', JNum 5),
       (''meta_data'', JArr [JObj [(''key'', JStr ''_dokan_vendor_id''), (''value'', JNum 0)]])])
     = [JNum 0, JUndefined, JUndefined, JUndefined, JUndefined, JUndefined]
   \<and> \<not> js_truthy (JNum 0) \<and> \<not> js_truthy (JStr []) \<and> \<not> js_truthy JNull \<and> \<not> js_truthy JUndefined
   \<and> js_toString (JNum 0) = js_toString (JStr ''0'')
   \<and> \<not> orderBelongsToVendor (JObj [(''id'', JNum 5),
       (''meta_data'', JArr [JObj [(''key'', JStr ''_dokan_vendor_id''), (''value'', JNum 0)]])]) (JStr ''0'')"
proof -
  let ?o = "JObj [(''id'', JNum 5),
       (''meta_data'', JArr [JObj [(''key'', JStr ''_dokan_vendor_id''), (''value'', JNum 0)]])]"
  have ev: "evidenceValues ?o = [JNum 0, JUndefined, JUndefined, JUndefined, JUndefined, JUndefined]"
    by (simp add: evidenceValues_def vendorMetaEntries_def propOf_def orderMetaKeys_def
        possibleFields_def)
  have ts: "js_toString (JNum 0) = js_toString (JStr ''0'')"
    by (simp add: js_toString_def number_toString_def nat_digits.simps digit_char_def)
  have "\<forall>v \<in> set (evidenceValues ?o). js_truthy v \<longrightarrow> js_toString v \<noteq> js_toString (JStr ''0'')"
    by (simp add: ev)
  from falsy_evidence_never_matches [OF this] ev ts show ?thesis by simp
qed

lemma number_toString_42: "number_toString 42 = ''42''"
  by (simp add: number_toString_def nat_digits.simps digit_char_def)

lemma orderBelongsToVendor_reached:
  assumes "orderBelongsToVendor_try order vendor = Some b"
    and "js_truthy vendor" and "js_toString vendor = Some s"
    and "v \<in> set (evidenceValues order)" and "matchingValue s v"
  shows "orderBelongsToVendor order vendor"
proof -
  have "js_truthy order"
    using assms(4,5)
    by (cases order)
      (auto simp: evidenceValues_def vendorMetaEntries_def propOf_def possibleFields_def
        matchingValue_def)
  with orderBelongsToVendor_try_char [OF assms(1)] assms(2-5) have b by auto
  with assms(1) show ?thesis by (simp add: orderBelongsToVendor_def)
qed

text \<open>
  C7, as stated: an order carrying evidence with the number 42 that is rejected for the
  vendor id \<^verbatim>\<open>"42"\<close>. A \<^verbatim>\<open>null\<close> entry precedes the evidence in
  \<^verbatim>\<open>meta_data\<close>; reading its \<^verbatim>\<open>key\<close> raises, and the \<^verbatim>\<open>catch\<close> answers
  \<^verbatim>\<open>false\<close>.
\<close>

theorem numeric_evidence_counterexample:
  "JNum 42 \<in> set (evidenceValues (JObj [(''id'', JNum 1),
       (''meta_data'', JArr [JNull, JObj [(''key'', JStr ''_dokan_vendor_id''), (''value'', JNum 42)]])]))
   \<and> \<not> orderBelongsToVendor (JObj [(''id'', JNum 1),
       (''meta_data'', JArr [JNull, JObj [(''key'', JStr ''_dokan_vendor_id''), (''value'', JNum 42)]])])
     (JStr ''42'')"
  by (simp add: evidenceValues_def vendorMetaEntries_def propOf_def orderMetaKeys_def
      orderBelongsToVendor_def orderBelongsToVendor_try_def js_toString_def number_toString_def
      nat_digits.simps digit_char_def metaDataHasVendor_def vendorMetaMatches_def)

text \<open>
  C7, amended. Vendor ids are compared as strings after coercion: on every order for
  which the check raises no internal error, evidence with the number 42 matches the
  vendor id \<^verbatim>\<open>"42"\<close> and evidence with the string \<^verbatim>\<open>"42"\<close> matches the numeric
  vendor id 42; and on every order the numeric and the string vendor id get the same
  answer.
\<close>

theorem vendor_id_string_equivalence:
  "(orderBelongsToVendor_try order (JStr ''42'') \<noteq> None \<and> JNum 42 \<in> set (evidenceValues order)
      \<longrightarrow> orderBelongsToVendor order (JStr ''42''))
   \<and> (orderBelongsToVendor_try order (JNum 42) \<noteq> None \<and> JStr ''42'' \<in> set (evidenceValues order)
      \<longrightarrow> orderBelongsToVendor order (JNum 42))
   \<and> orderBelongsToVendor order (JNum 42) = orderBelongsToVendor order (JStr ''42'')"
proof -
  have t1: "js_toString (JNum 42) = Some ''42''" and t2: "js_toString (JStr ''42'') = Some ''42''"
    by (simp_all add: js_toString_def number_toString_42)
  have a: "orderBelongsToVendor order (JStr ''42'')"
    if "orderBelongsToVendor_try order (JStr ''42'') \<noteq> None" "JNum 42 \<in> set (evidenceValues order)"
  proof -
    from that(1) obtain b where "orderBelongsToVendor_try order (JStr ''42'') = Some b" by auto
    from orderBelongsToVendor_reached [OF this _ t2 that(2)] t1 show ?thesis
      by (simp add: matchingValue_def)
  qed
  have b: "orderBelongsToVendor order (JNum 42)"
    if "orderBelongsToVendor_try order (JNum 42) \<noteq> None" "JStr ''42'' \<in> set (evidenceValues order)"
  proof -
    from that(1) obtain b where "orderBelongsToVendor_try order (JNum 42) = Some b" by auto
    from orderBelongsToVendor_reached [OF this _ t1 that(2)] t2 show ?thesis
      by (simp add: matchingValue_def)
  qed
  have c: "orderBelongsToVendor_try order (JNum 42) = orderBelongsToVendor_try order (JStr ''42'')"
    by (simp add: orderBelongsToVendor_try_def t1 t2)
  from a b c show ?thesis by (simp add: orderBelongsToVendor_def)
qed

theorem vendor_id_string_equivalence_witness:
  "orderBelongsToVendor_try (JObj [(''id'', JNum 1),
       (''meta_data'', JArr [JObj [(''key'', JStr ''_dokan_vendor_id''), (''value'', JNum 42)]])])
     (JStr ''42'') \<noteq> None
   \<and> JNum 42 \<in> set (evidenceValues (JObj [(''id'', JNum 1),
       (''meta_data'', JArr [JObj [(''key'', JStr ''_dokan_vendor_id''), (''value'', JNum 42)]])]))
   \<and> orderBelongsToVendor (JObj [(''id'', JNum 1),
       (''meta_data'', JArr [JObj [(''key'', JStr ''_dokan_vendor_id''), (''value'', JNum 42)]])])
     (JStr ''42'')
   \<and> orderBelongsToVendor_try (JObj [(''id'', JNum 2), (''store_id'', JStr ''42'')]) (JNum 42) \<noteq> None
   \<and> JStr ''42'' \<in> set (evidenceValues (JObj [(''id'', JNum 2), (''store_id'', JStr ''42'')]))
   \<and> orderBelongsToVendor (JObj [(''id'', JNum 2), (''store_id'', JStr ''42'')]) (JNum 42)"
proof -
  let ?o = "JObj [(''id'', JNum 1),
       (''meta_data'', JArr [JObj [(''key'', JStr ''_dokan_vendor_id''), (''value'', JNum 42)]])]"
  let ?p = "JObj [(''id'', JNum 2), (''store_id'', JStr ''42'')]"
  have h1: "orderBelongsToVendor_try ?o (JStr ''42'') \<noteq> None"
    by (simp add: orderBelongsToVendor_try_def js_toString_def number_toString_def
      nat_digits.simps digit_char_def metaDataHasVendor_def vendorMetaMatches_def orderMetaKeys_def)
  have h2: "JNum 42 \<in> set (evidenceValues ?o)"
    by (simp add: evidenceValues_def vendorMetaEntries_def propOf_def orderMetaKeys_def)
  have h3: "orderBelongsToVendor_try ?p (JNum 42) \<noteq> None"
    by (simp add: orderBelongsToVendor_try_def js_toString_def number_toString_def
      nat_digits.simps digit_char_def metaDataHasVendor_def possibleFields_def fieldIsVendor_def)
  have h4: "JStr ''42'' \<in> set (evidenceValues ?p)"
    by (simp add: evidenceValues_def vendorMetaEntries_def propOf_def possibleFields_def)
  from vendor_id_string_equivalence [of ?o] h1 h2
  have c1: "orderBelongsToVendor ?o (JStr ''42'')" by blast
  from vendor_id_string_equivalence [of ?p] h3 h4
  have c2: "orderBelongsToVendor ?p (JNum 42)" by blast
  from h1 h2 h3 h4 c1 c2 show ?thesis by blast
qed

lemma ownedOrder_belongs: "vid \<noteq> [] \<Longrightarrow> orderBelongsToVendor (ownedOrder n vid) (JStr vid)"
  by (simp add: ownedOrder_def orderBelongsToVendor_def orderBelongsToVendor_try_def
      js_toString_def metaDataHasVendor_def vendorMetaMatches_def orderMetaKeys_def)

section \<open>Properties of the ledger and of start and stop\<close>

lemma not_setHas_fresh:
  assumes "isSetContent (acc @ x # xs)"
  shows "\<not> setHas acc x"
proof
  assume "setHas acc x"
  then have "isPrimitive x" "x \<in> set acc"
    by (auto simp: setHas_def js_strict_equals_def)
  with assms show False by (auto simp: isSetContent_def)
qed

lemma foldl_setAdd_content:
  "isSetContent (acc @ xs) \<Longrightarrow> foldl setAdd acc xs = acc @ xs"
proof (induction xs arbitrary: acc)
  case Nil
  then show ?case by simp
next
  case (Cons x xs)
  from Cons.prems have "\<not> setHas acc x" by (rule not_setHas_fresh)
  then have "setAdd acc x = acc @ [x]" by (simp add: setAdd_def)
  with Cons.IH [of "acc @ [x]"] Cons.prems show ?case by simp
qed

lemma newSet_content: "isSetContent ids \<Longrightarrow> newSet (JArr ids) = Some ids"
  using foldl_setAdd_content [of "[]" ids] by (simp add: newSet_def)

lemma parseOfStringify_primitive: "isPrimitive x \<Longrightarrow> parseOfStringify x = x"
  by (cases x) auto

lemma parseOfStringify_elems_map:
  "parseOfStringify_elems xs = map (\<lambda>x. if x = JUndefined then JNull else parseOfStringify x) xs"
  by (induction xs) auto

lemma parseOfStringify_ids:
  "\<forall>x \<in> set ids. isJsonPrimitive x \<Longrightarrow> parseOfStringify_elems ids = ids"
  by (induction ids) (auto simp: isJsonPrimitive_def parseOfStringify_primitive)

lemma parseOfStringify_ledgerDocument:
  "\<forall>x \<in> set ids. isJsonPrimitive x \<Longrightarrow>
     parseOfStringify (ledgerDocument ids now) = ledgerDocument ids now"
  by (simp add: ledgerDocument_def parseOfStringify_ids)

lemma ledger_file_written:
  "parseOfStringify (ledgerDocument ids now)
   = JObj [(''orders'',
            JArr (map (\<lambda>x. if x = JUndefined then JNull else parseOfStringify x) ids)),
           (''lastUpdate'', JStr now)]"
  by (simp add: ledgerDocument_def parseOfStringify_elems_map)

lemma ledger_file_written_exact:
  "\<forall>x \<in> set ids. isJsonPrimitive x \<Longrightarrow>
   parseOfStringify (ledgerDocument ids now)
   = JObj [(''orders'', JArr ids), (''lastUpdate'', JStr now)]"
  using parseOfStringify_ledgerDocument [of ids now] by (simp add: ledgerDocument_def)

text \<open>
  C9, amended. Saving the processed-order set and loading it again restores exactly
  the saved ids, in their order, through the document \<^verbatim>\<open>{ orders, lastUpdate }\<close>,
  for every set whose ids are JSON primitives (numbers, strings, booleans or
  \<^verbatim>\<open>null\<close>): when the file can be written, the save succeeds, the file holds the
  document of these ids, and a load started from any in-memory content succeeds with
  the saved set.
\<close>

theorem ledger_round_trip:
  assumes "processedOrders s = Some ids" and "isSetContent ids"
    and "\<forall>x \<in> set ids. isJsonPrimitive x" and "diskWritable s"
  shows "fst (saveProcessedOrdersState now s)
     \<and> stateFile (snd (saveProcessedOrdersState now s)) = Parsed (ledgerDocument ids now)
     \<and> fst (loadProcessedOrdersState (snd (saveProcessedOrdersState now s)\<lparr>processedOrders := other\<rparr>))
     \<and> processedOrders (snd (loadProcessedOrdersState
           (snd (saveProcessedOrdersState now s)\<lparr>processedOrders := other\<rparr>))) = Some ids"
  using assms
  by (simp add: saveProcessedOrdersState_def loadProcessedOrdersState_def
      parseOfStringify_ledgerDocument newSet_content)
    (simp add: ledgerDocument_def propOf_def newSet_content)

theorem ledger_round_trip_witness:
  "isSetContent [JNum 100, JStr ''101''] \<and> isJsonPrimitive (JNum 100)
   \<and> isJsonPrimitive (JStr ''101'')
   \<and> stateFile (snd (saveProcessedOrdersState ''2024-05-01T12:00:00.000Z''
        \<lparr>processedOrders = Some [JNum 100, JStr ''101''], stateFile = NoFile, diskWritable = True,
         isListening = True, intervalId = Some 60000\<rparr>))
      = Parsed (JObj [(''orders'', JArr [JNum 100, JStr ''101'']),
                      (''lastUpdate'', JStr ''2024-05-01T12:00:00.000Z'')])
   \<and> processedOrders (snd (loadProcessedOrdersState
        (snd (saveProcessedOrdersState ''2024-05-01T12:00:00.000Z''
          \<lparr>processedOrders = Some [JNum 100, JStr ''101''], stateFile = NoFile, diskWritable = True,
           isListening = True, intervalId = Some 60000\<rparr>)\<lparr>processedOrders := None\<rparr>)))
      = Some [JNum 100, JStr ''101'']"
proof -
  let ?s = "\<lparr>processedOrders = Some [JNum 100, JStr ''101''], stateFile = NoFile, diskWritable = True,
         isListening = True, intervalId = Some 60000\<rparr>"
  have h1: "processedOrders ?s = Some [JNum 100, JStr ''101'']" and h4: "diskWritable ?s"
    by simp_all
  have h2: "isSetContent [JNum 100, JStr ''101'']" by (simp add: isSetContent_def)
  have h3: "\<forall>x \<in> set [JNum 100, JStr ''101'']. isJsonPrimitive x"
    by (simp add: isJsonPrimitive_def)
  from ledger_round_trip [OF h1 h2 h3 h4, of "''2024-05-01T12:00:00.000Z''" None] h2
  show ?thesis by (simp add: ledgerDocument_def isJsonPrimitive_def)
qed

text \<open>
  C6, as stated: after \<^verbatim>\<open>stopOrderListener\<close> on a set holding the id 100, the
  in-memory set still holds it and the file records the id list \<^verbatim>\<open>[100]\<close>, not
  an empty one.
\<close>

theorem stop_keeps_ledger_counterexample:
  "processedOrders (snd (stopOrderListener ''2024-05-01T12:00:00.000Z''
        \<lparr>processedOrders = Some [JNum 100], stateFile = NoFile, diskWritable = True,
         isListening = True, intervalId = Some 60000\<rparr>)) = Some [JNum 100]
   \<and> stateFile (snd (stopOrderListener ''2024-05-01T12:00:00.000Z''
        \<lparr>processedOrders = Some [JNum 100], stateFile = NoFile, diskWritable = True,
         isListening = True, intervalId = Some 60000\<rparr>))
      = Parsed (JObj [(''orders'', JArr [JNum 100]),
                      (''lastUpdate'', JStr ''2024-05-01T12:00:00.000Z'')])
   \<and> processedOrders (snd (stopOrderListener ''2024-05-01T12:00:00.000Z''
        \<lparr>processedOrders = Some [JNum 100], stateFile = NoFile, diskWritable = True,
         isListening = True, intervalId = Some 60000\<rparr>)) \<noteq> Some []"
  by (simp add: stopOrderListener_def saveProcessedOrdersState_def ledgerDocument_def)

text \<open>
  C6, amended. When the listener stops, the processed-order set is persisted as it
  is: \<^verbatim>\<open>stopOrderListener\<close> returns true, the timer is cancelled, the listener is
  no longer listening, and (the file being writable) the file records the ids of the
  in-memory set, in insertion order, each as JSON writes it (an \<^verbatim>\<open>undefined\<close> id
  as \<^verbatim>\<open>null\<close>): exactly the ids of the set when they are JSON primitives.
\<close>

theorem stop_persists_ledger:
  assumes "processedOrders s = Some ids" and "diskWritable s"
  shows "fst (stopOrderListener now s)
     \<and> intervalId (snd (stopOrderListener now s)) = None
     \<and> \<not> isListening (snd (stopOrderListener now s))
     \<and> stateFile (snd (stopOrderListener now s))
         = Parsed (JObj [(''orders'',
                          JArr (map (\<lambda>x. if x = JUndefined then JNull else parseOfStringify x) ids)),
                         (''lastUpdate'', JStr now)])
     \<and> ((\<forall>x \<in> set ids. isJsonPrimitive x)
          \<longrightarrow> stateFile (snd (stopOrderListener now s))
               = Parsed (JObj [(''orders'', JArr ids), (''lastUpdate'', JStr now)]))"
proof -
  have f: "stateFile (snd (stopOrderListener now s))
           = Parsed (parseOfStringify (ledgerDocument ids now))"
    using assms by (simp add: stopOrderListener_def saveProcessedOrdersState_def)
  have g: "parseOfStringify (ledgerDocument ids now)
           = JObj [(''orders'',
                    JArr (map (\<lambda>x. if x = JUndefined then JNull else parseOfStringify x) ids)),
                   (''lastUpdate'', JStr now)]"
    by (simp add: ledgerDocument_def parseOfStringify_elems_map)
  have h: "parseOfStringify (ledgerDocument ids now)
           = JObj [(''orders'', JArr ids), (''lastUpdate'', JStr now)]"
    if "\<forall>x \<in> set ids. isJsonPrimitive x"
    using parseOfStringify_ledgerDocument [OF that, of now] by (simp add: ledgerDocument_def)
  have r: "fst (stopOrderListener now s)" "intervalId (snd (stopOrderListener now s)) = None"
    "\<not> isListening (snd (stopOrderListener now s))"
    using assms by (simp_all add: stopOrderListener_def saveProcessedOrdersState_def)
  from f g h r show ?thesis by simp
qed

theorem stop_persists_ledger_witness:
  "isJsonPrimitive (JNum 100) \<and> isJsonPrimitive (JNum 101)
   \<and> stateFile (snd (stopOrderListener ''2024-05-01T12:00:00.000Z''
        \<lparr>processedOrders = Some [JNum 100, JNum 101], stateFile = NoFile, diskWritable = True,
         isListening = True, intervalId = Some 60000\<rparr>))
      = Parsed (JObj [(''orders'', JArr [JNum 100, JNum 101]),
                      (''lastUpdate'', JStr ''2024-05-01T12:00:00.000Z'')])
   \<and> intervalId (snd (stopOrderListener ''2024-05-01T12:00:00.000Z''
        \<lparr>processedOrders = Some [JNum 100, JNum 101], stateFile = NoFile, diskWritable = True,
         isListening = True, intervalId = Some 60000\<rparr>)) = None"
proof -
  let ?s = "\<lparr>processedOrders = Some [JNum 100, JNum 101], stateFile = NoFile, diskWritable = True,
         isListening = True, intervalId = Some 60000\<rparr>"
  have h1: "processedOrders ?s = Some [JNum 100, JNum 101]" and h2: "diskWritable ?s"
    by simp_all
  have h3: "\<forall>x \<in> set [JNum 100, JNum 101]. isJsonPrimitive x"
    by (simp add: isJsonPrimitive_def)
  from stop_persists_ledger [OF h1 h2, of "''2024-05-01T12:00:00.000Z''"] h3
  have "stateFile (snd (stopOrderListener ''2024-05-01T12:00:00.000Z'' ?s))
          = Parsed (JObj [(''orders'', JArr [JNum 100, JNum 101]),
                          (''lastUpdate'', JStr ''2024-05-01T12:00:00.000Z'')])
        \<and> intervalId (snd (stopOrderListener ''2024-05-01T12:00:00.000Z'' ?s)) = None"
    by blast
  then show ?thesis by (simp add: isJsonPrimitive_def)
qed

text \<open>
  C8, as stated: with \<^verbatim>\<open>checkInterval = -5\<close> the timer is armed with a delay of
  \<^verbatim>\<open>-5000\<close> ms, not 60 seconds: \<^verbatim>\<open>config.checkInterval || 60\<close> replaces only a
  falsy value.
\<close>

theorem negative_interval_counterexample:
  "intervalId (fst (startOrderListener ''2024-05-01T12:00:00.000Z'' []
        \<lparr>apiUrl = ''https://loja.example'', username = ''ana'', password = ''segredo'',
         vendorId = ''7'', checkInterval = Some (- 5)\<rparr>
        \<lparr>processedOrders = None, stateFile = NoFile, diskWritable = True,
         isListening = False, intervalId = None\<rparr>)) = Some (- 5000)
   \<and> intervalId (fst (startOrderListener ''2024-05-01T12:00:00.000Z'' []
        \<lparr>apiUrl = ''https://loja.example'', username = ''ana'', password = ''segredo'',
         vendorId = ''7'', checkInterval = Some (- 5)\<rparr>
        \<lparr>processedOrders = None, stateFile = NoFile, diskWritable = True,
         isListening = False, intervalId = None\<rparr>)) \<noteq> Some (60 * 1000)"
  by (simp add: startOrderListener_def loadProcessedOrdersState_def trim_seven)

text \<open>
  C8, amended. Whenever \<^verbatim>\<open>startOrderListener\<close> does not throw, it arms the
  repeating timer at \<^verbatim>\<open>config.checkInterval\<close> seconds, and at 60 seconds whenever
  \<^verbatim>\<open>checkInterval\<close> is unset or zero; a negative value is not replaced.
\<close>

theorem start_arms_interval:
  assumes "snd (startOrderListener now autoVendorId cfg s) \<noteq> None"
  shows "intervalId (fst (startOrderListener now autoVendorId cfg s))
         = Some (case checkInterval cfg of
                   None \<Rightarrow> 60 * 1000
                 | Some n \<Rightarrow> if n = 0 then 60 * 1000 else n * 1000)"
  using assms
  by (auto simp: startOrderListener_def Let_def split: option.splits if_splits)

theorem start_arms_interval_witness:
  "snd (startOrderListener ''2024-05-01T12:00:00.000Z'' []
        \<lparr>apiUrl = ''https://loja.example'', username = ''ana'', password = ''segredo'',
         vendorId = ''7'', checkInterval = Some 0\<rparr>
        \<lparr>processedOrders = None, stateFile = NoFile, diskWritable = True,
         isListening = False, intervalId = None\<rparr>) \<noteq> None
   \<and> intervalId (fst (startOrderListener ''2024-05-01T12:00:00.000Z'' []
        \<lparr>apiUrl = ''https://loja.example'', username = ''ana'', password = ''segredo'',
         vendorId = ''7'', checkInterval = Some 0\<rparr>
        \<lparr>processedOrders = None, stateFile = NoFile, diskWritable = True,
         isListening = False, intervalId = None\<rparr>)) = Some 60000"
proof -
  let ?cfg = "\<lparr>apiUrl = ''https://loja.example'', username = ''ana'', password = ''segredo'',
         vendorId = ''7'', checkInterval = Some 0\<rparr>"
  let ?s = "\<lparr>processedOrders = None, stateFile = NoFile, diskWritable = True,
         isListening = False, intervalId = None\<rparr>"
  have h: "snd (startOrderListener ''2024-05-01T12:00:00.000Z'' [] ?cfg ?s) \<noteq> None"
    by (simp add: startOrderListener_def Let_def trim_seven)
  from start_arms_interval [OF h] h show ?thesis by simp
qed

section \<open>Properties of the fetcher\<close>

text \<open>
  C3, as stated: a store where the direct and the meta query find nothing and the
  vendor endpoint would return two orders. The fetch never asks the vendor endpoint:
  its third request is the unfiltered listing of 50 processing orders, filtered
  locally, and the one order found there is the result. The documented order would
  have returned the vendor endpoint's two orders.
\<close>

theorem documented_order_counterexample:
  "fetchOrders localFilterFirstApi shopConfig ''7''
     = ([WcVendorParam, WcMetaQuery, WcProcessing50], [ownedOrder 201 ''7''])
   \<and> snd (getDokanOrders localFilterFirstApi) = Some [ownedOrder 301 ''7'', ownedOrder 302 ''7'']
   \<and> documentedFetch localFilterFirstApi shopConfig ''7''
     = [ownedOrder 301 ''7'', ownedOrder 302 ''7'']
   \<and> snd (fetchOrders localFilterFirstApi shopConfig ''7'')
     \<noteq> documentedFetch localFilterFirstApi shopConfig ''7''"
  by (simp add: fetchOrders_def getWooCommerceOrders_def wooSecondAttempt_def wooThirdAttempt_def
      dokanMetaFilter_def js_toString_def trim_seven getDokanOrders_def
      documentedFetch_def nonEmptyResult_def shopConfig_def ownedOrder_def)

lemma woo_trace:
  "subseq (fst (getWooCommerceOrders api cfg)) [WcVendorParam, WcMetaQuery, WcProcessing50]"
  by (auto simp: getWooCommerceOrders_def wooSecondAttempt_def wooThirdAttempt_def
      split: option.splits)

lemma dokan_trace: "subseq (fst (getDokanOrders api)) [DokanOrders, WcMetaQueryJson]"
  by (auto simp: getDokanOrders_def split: option.splits)

lemma getAll_trace: "subseq (fst (getAllOrdersAndFilter api cfg vid)) [WcRecent50]"
  by (auto simp: getAllOrdersAndFilter_def split: option.splits)

lemma fetch_trace:
  "subseq (fst (fetchOrders api cfg vid))
     [WcVendorParam, WcMetaQuery, WcProcessing50, DokanOrders, WcMetaQueryJson, WcRecent50]"
proof -
  have a: "subseq (fst (getWooCommerceOrders api cfg) @ fst (getDokanOrders api)
                    @ fst (getAllOrdersAndFilter api cfg vid))
            ([WcVendorParam, WcMetaQuery, WcProcessing50] @ [DokanOrders, WcMetaQueryJson] @ [WcRecent50])"
    by (intro list_emb_append_mono woo_trace dokan_trace getAll_trace)
  have b: "subseq (fst (getWooCommerceOrders api cfg) @ fst (getDokanOrders api))
            ([WcVendorParam, WcMetaQuery, WcProcessing50] @ [DokanOrders, WcMetaQueryJson] @ [WcRecent50])"
    using list_emb_append_mono [OF woo_trace list_emb_append_mono [OF dokan_trace, of "[]" "[WcRecent50]"]]
    by simp
  have c: "subseq (fst (getWooCommerceOrders api cfg) @ fst (getAllOrdersAndFilter api cfg vid))
            ([WcVendorParam, WcMetaQuery, WcProcessing50] @ [DokanOrders, WcMetaQueryJson] @ [WcRecent50])"
    using list_emb_append_mono [OF woo_trace list_emb_append_mono [OF _ getAll_trace, of "[]" "[DokanOrders, WcMetaQueryJson]"]]
    by simp
  have d: "subseq (fst (getWooCommerceOrders api cfg))
            ([WcVendorParam, WcMetaQuery, WcProcessing50] @ [DokanOrders, WcMetaQueryJson] @ [WcRecent50])"
    using list_emb_append_mono [OF woo_trace, of "[]" "[DokanOrders, WcMetaQueryJson] @ [WcRecent50]"]
    by simp
  show ?thesis
    using a b c d
    by (auto simp: fetchOrders_def split: prod.splits option.splits)
qed

lemma woo_first:
  "nonEmptyResult (api WcVendorParam) = Some d \<Longrightarrow>
   getWooCommerceOrders api cfg = ([WcVendorParam], Some d)"
  by (auto simp: getWooCommerceOrders_def nonEmptyResult_def split: option.splits if_splits)

lemma woo_second:
  "nonEmptyResult (api WcVendorParam) = None \<Longrightarrow> js_trim (vendorId cfg) \<noteq> [] \<Longrightarrow>
   nonEmptyResult (api WcMetaQuery) = Some d \<Longrightarrow>
   getWooCommerceOrders api cfg = ([WcVendorParam, WcMetaQuery], Some d)"
  by (auto simp: getWooCommerceOrders_def wooSecondAttempt_def nonEmptyResult_def js_trim_Nil
      split: option.splits if_splits)

lemma woo_third:
  "nonEmptyResult (api WcVendorParam) = None \<Longrightarrow> js_trim (vendorId cfg) \<noteq> [] \<Longrightarrow>
   nonEmptyResult (api WcMetaQuery) = None \<Longrightarrow>
   getWooCommerceOrders api cfg = wooThirdAttempt api cfg [WcVendorParam, WcMetaQuery]"
  by (auto simp: getWooCommerceOrders_def wooSecondAttempt_def nonEmptyResult_def js_trim_Nil
      split: option.splits if_splits)

lemma wooThirdAttempt_stage:
  "wooThirdAttempt api cfg sent = (sent @ [WcProcessing50], localFilterStage api cfg)"
  by (simp add: wooThirdAttempt_def localFilterStage_def split: option.splits)

text \<open>
  C3, amended. With a vendor id configured, the fetch issues its requests in the order
  direct vendor-id parameter, structured meta filter, up to 50 processing orders
  filtered locally by the Dokan meta keys, vendor endpoint with its meta-filter
  fallback, and last \<^verbatim>\<open>getAllOrdersAndFilter\<close> (up to 50 recent processing orders
  through the ownership verifier); it stops at the first stage that yields a non-empty
  list, and when the first four yield nothing the last one is attempted and its
  result is the result. In particular, when the first three stages yield nothing and
  the vendor endpoint returns a non-empty list, the result is exactly that list and
  \<^verbatim>\<open>getAllOrdersAndFilter\<close> is never attempted. When the third stage fails (its
  request or its filter raises), the fetch goes straight to the last stage.
\<close>

theorem fetch_escalation:
  assumes "js_trim (vendorId cfg) \<noteq> []"
  shows "subseq (fst (fetchOrders api cfg vid))
           [WcVendorParam, WcMetaQuery, WcProcessing50, DokanOrders, WcMetaQueryJson, WcRecent50]
    \<and> (\<forall>d. nonEmptyResult (api WcVendorParam) = Some d
           \<longrightarrow> fetchOrders api cfg vid = ([WcVendorParam], d))
    \<and> (\<forall>d. nonEmptyResult (api WcVendorParam) = None \<and> nonEmptyResult (api WcMetaQuery) = Some d
           \<longrightarrow> fetchOrders api cfg vid = ([WcVendorParam, WcMetaQuery], d))
    \<and> (\<forall>d. nonEmptyResult (api WcVendorParam) = None \<and> nonEmptyResult (api WcMetaQuery) = None
            \<and> nonEmptyResult (localFilterStage api cfg) = Some d
           \<longrightarrow> fetchOrders api cfg vid = ([WcVendorParam, WcMetaQuery, WcProcessing50], d))
    \<and> (\<forall>d. nonEmptyResult (api WcVendorParam) = None \<and> nonEmptyResult (api WcMetaQuery) = None
            \<and> localFilterStage api cfg = Some []
            \<and> nonEmptyResult (snd (getDokanOrders api)) = Some d
           \<longrightarrow> snd (fetchOrders api cfg vid) = d
               \<and> fst (fetchOrders api cfg vid)
                   = [WcVendorParam, WcMetaQuery, WcProcessing50] @ fst (getDokanOrders api)
               \<and> WcRecent50 \<notin> set (fst (fetchOrders api cfg vid)))
    \<and> (nonEmptyResult (api WcVendorParam) = None \<and> nonEmptyResult (api WcMetaQuery) = None
          \<and> localFilterStage api cfg = Some []
          \<and> nonEmptyResult (snd (getDokanOrders api)) = None
         \<longrightarrow> fetchOrders api cfg vid
               = ([WcVendorParam, WcMetaQuery, WcProcessing50] @ fst (getDokanOrders api)
                    @ fst (getAllOrdersAndFilter api cfg vid),
                  snd (getAllOrdersAndFilter api cfg vid)))
    \<and> (nonEmptyResult (api WcVendorParam) = None \<and> nonEmptyResult (api WcMetaQuery) = None
          \<and> localFilterStage api cfg = None
         \<longrightarrow> fetchOrders api cfg vid
               = ([WcVendorParam, WcMetaQuery, WcProcessing50] @ fst (getAllOrdersAndFilter api cfg vid),
                  snd (getAllOrdersAndFilter api cfg vid)))
    \<and> getDokanOrders api
         = (case api DokanOrders of
              Some d \<Rightarrow> ([DokanOrders], Some d)
            | None \<Rightarrow> ([DokanOrders, WcMetaQueryJson], api WcMetaQueryJson))
    \<and> (apiUrl cfg \<noteq> [] \<and> username cfg \<noteq> [] \<and> password cfg \<noteq> [] \<and> js_trim vid \<noteq> []
         \<longrightarrow> getAllOrdersAndFilter api cfg vid
               = ([WcRecent50],
                  case api WcRecent50 of
                    None \<Rightarrow> []
                  | Some allOrders \<Rightarrow>
                      (case verifyOrdersBelongToVendor allOrders vid of
                         None \<Rightarrow> []
                       | Some vs \<Rightarrow> vs)))"
proof -
  have s6: "fetchOrders api cfg vid
               = ([WcVendorParam, WcMetaQuery, WcProcessing50] @ fst (getAllOrdersAndFilter api cfg vid),
                  snd (getAllOrdersAndFilter api cfg vid))"
    if "nonEmptyResult (api WcVendorParam) = None" "nonEmptyResult (api WcMetaQuery) = None"
      "localFilterStage api cfg = None"
    using that woo_third [OF that(1) assms that(2)]
    by (auto simp: fetchOrders_def wooThirdAttempt_stage split: prod.splits)
  have s7: "fetchOrders api cfg vid
               = ([WcVendorParam, WcMetaQuery, WcProcessing50] @ fst (getDokanOrders api)
                    @ fst (getAllOrdersAndFilter api cfg vid),
                  snd (getAllOrdersAndFilter api cfg vid))"
    if "nonEmptyResult (api WcVendorParam) = None" "nonEmptyResult (api WcMetaQuery) = None"
      "localFilterStage api cfg = Some []" "nonEmptyResult (snd (getDokanOrders api)) = None"
    using that woo_third [OF that(1) assms that(2)]
    by (auto simp: fetchOrders_def wooThirdAttempt_stage nonEmptyResult_def
        split: prod.splits option.splits if_splits)
  have s4: "fetchOrders api cfg vid = ([WcVendorParam, WcMetaQuery, WcProcessing50], d)"
    if "nonEmptyResult (api WcVendorParam) = None" "nonEmptyResult (api WcMetaQuery) = None"
      "nonEmptyResult (localFilterStage api cfg) = Some d" for d
    using that woo_third [OF that(1) assms that(2)]
    by (auto simp: fetchOrders_def wooThirdAttempt_stage nonEmptyResult_def
        split: option.splits if_splits)
  have s5: "snd (fetchOrders api cfg vid) = d
      \<and> fst (fetchOrders api cfg vid) = [WcVendorParam, WcMetaQuery, WcProcessing50] @ fst (getDokanOrders api)
      \<and> WcRecent50 \<notin> set (fst (fetchOrders api cfg vid))"
    if "nonEmptyResult (api WcVendorParam) = None" "nonEmptyResult (api WcMetaQuery) = None"
      "localFilterStage api cfg = Some []" "nonEmptyResult (snd (getDokanOrders api)) = Some d" for d
    using that woo_third [OF that(1) assms that(2)]
    by (auto simp: fetchOrders_def wooThirdAttempt_stage nonEmptyResult_def getDokanOrders_def
        split: option.splits if_splits prod.splits)
  have s2: "fetchOrders api cfg vid = ([WcVendorParam], d)"
    if "nonEmptyResult (api WcVendorParam) = Some d" for d
    using woo_first [of api d cfg] that
    by (auto simp: fetchOrders_def nonEmptyResult_def split: option.splits if_splits)
  have s3: "fetchOrders api cfg vid = ([WcVendorParam, WcMetaQuery], d)"
    if "nonEmptyResult (api WcVendorParam) = None" "nonEmptyResult (api WcMetaQuery) = Some d" for d
    using woo_second [of api cfg d] assms that
    by (auto simp: fetchOrders_def nonEmptyResult_def split: option.splits if_splits)
  have s8: "getDokanOrders api
         = (case api DokanOrders of
              Some d \<Rightarrow> ([DokanOrders], Some d)
            | None \<Rightarrow> ([DokanOrders, WcMetaQueryJson], api WcMetaQueryJson))"
    by (simp add: getDokanOrders_def split: option.splits)
  have s9: "getAllOrdersAndFilter api cfg vid
               = ([WcRecent50],
                  case api WcRecent50 of
                    None \<Rightarrow> []
                  | Some allOrders \<Rightarrow>
                      (case verifyOrdersBelongToVendor allOrders vid of
                         None \<Rightarrow> []
                       | Some vs \<Rightarrow> vs))"
    if "apiUrl cfg \<noteq> [] \<and> username cfg \<noteq> [] \<and> password cfg \<noteq> [] \<and> js_trim vid \<noteq> []"
    using that by (auto simp: getAllOrdersAndFilter_def js_trim_Nil split: option.splits)
  from fetch_trace [of api cfg vid] s2 s3 s4 s5 s6 s7 s8 s9 show ?thesis
    by blast
qed

theorem fetch_escalation_witness:
  "js_trim (vendorId shopConfig) \<noteq> []
   \<and> nonEmptyResult (vendorEndpointApi WcVendorParam) = None
   \<and> nonEmptyResult (vendorEndpointApi WcMetaQuery) = None
   \<and> localFilterStage vendorEndpointApi shopConfig = Some []
   \<and> nonEmptyResult (snd (getDokanOrders vendorEndpointApi))
       = Some [ownedOrder 301 ''7'', ownedOrder 302 ''7'']
   \<and> fetchOrders vendorEndpointApi shopConfig ''7''
       = ([WcVendorParam, WcMetaQuery, WcProcessing50, DokanOrders],
          [ownedOrder 301 ''7'', ownedOrder 302 ''7''])
   \<and> WcRecent50 \<notin> set (fst (fetchOrders vendorEndpointApi shopConfig ''7''))
   \<and> nonEmptyResult (lastResortApi WcVendorParam) = None
   \<and> nonEmptyResult (lastResortApi WcMetaQuery) = None
   \<and> localFilterStage lastResortApi shopConfig = Some []
   \<and> nonEmptyResult (snd (getDokanOrders lastResortApi)) = None
   \<and> fetchOrders lastResortApi shopConfig ''7''
       = ([WcVendorParam, WcMetaQuery, WcProcessing50, DokanOrders, WcRecent50],
          [ownedOrder 999 ''7''])"
proof -
  have h0: "js_trim (vendorId shopConfig) \<noteq> []"
    by (simp add: shopConfig_vendor)
  have h1: "nonEmptyResult (vendorEndpointApi WcVendorParam) = None"
    and h2: "nonEmptyResult (vendorEndpointApi WcMetaQuery) = None"
    and h3: "localFilterStage vendorEndpointApi shopConfig = Some []"
    and h4: "nonEmptyResult (snd (getDokanOrders vendorEndpointApi))
       = Some [ownedOrder 301 ''7'', ownedOrder 302 ''7'']"
    and h5: "fst (getDokanOrders vendorEndpointApi) = [DokanOrders]"
    by (simp_all add: nonEmptyResult_def localFilterStage_def getDokanOrders_def)
  from fetch_escalation [OF h0, of vendorEndpointApi "''7''"] h1 h2 h3 h4
  have a: "snd (fetchOrders vendorEndpointApi shopConfig ''7'') = [ownedOrder 301 ''7'', ownedOrder 302 ''7'']
      \<and> fst (fetchOrders vendorEndpointApi shopConfig ''7'')
          = [WcVendorParam, WcMetaQuery, WcProcessing50] @ fst (getDokanOrders vendorEndpointApi)
      \<and> WcRecent50 \<notin> set (fst (fetchOrders vendorEndpointApi shopConfig ''7''))"
    by blast
  have k1: "nonEmptyResult (lastResortApi WcVendorParam) = None"
    and k2: "nonEmptyResult (lastResortApi WcMetaQuery) = None"
    and k3: "localFilterStage lastResortApi shopConfig = Some []"
    and k4: "nonEmptyResult (snd (getDokanOrders lastResortApi)) = None"
    and k5: "fst (getDokanOrders lastResortApi) = [DokanOrders]"
    by (simp_all add: nonEmptyResult_def localFilterStage_def getDokanOrders_def)
  have k6: "apiUrl shopConfig \<noteq> [] \<and> username shopConfig \<noteq> [] \<and> password shopConfig \<noteq> []
            \<and> js_trim ''7'' \<noteq> []"
    by (simp add: shopConfig_def trim_seven)
  have k7: "verifyOrdersBelongToVendor [ownedOrder 999 ''7''] ''7'' = Some [ownedOrder 999 ''7'']"
    by (simp add: verifyOrdersBelongToVendor_def ownedOrder_belongs)
  from fetch_escalation [OF h0, of lastResortApi "''7''"] k1 k2 k3 k4 k6
  have "fetchOrders lastResortApi shopConfig ''7''
          = ([WcVendorParam, WcMetaQuery, WcProcessing50] @ fst (getDokanOrders lastResortApi)
               @ fst (getAllOrdersAndFilter lastResortApi shopConfig ''7''),
             snd (getAllOrdersAndFilter lastResortApi shopConfig ''7''))
        \<and> getAllOrdersAndFilter lastResortApi shopConfig ''7''
          = ([WcRecent50],
             case lastResortApi WcRecent50 of
               None \<Rightarrow> []
             | Some allOrders \<Rightarrow>
                 (case verifyOrdersBelongToVendor allOrders ''7'' of None \<Rightarrow> [] | Some vs \<Rightarrow> vs))"
    by blast
  then have b: "fetchOrders lastResortApi shopConfig ''7''
       = ([WcVendorParam, WcMetaQuery, WcProcessing50, DokanOrders, WcRecent50],
          [ownedOrder 999 ''7''])"
    by (simp add: k5 k7)
  from a h0 h1 h2 h3 h4 h5 k1 k2 k3 k4 b show ?thesis
    by (simp add: prod_eq_iff)
qed

section \<open>Properties of a polling cycle\<close>

lemma belongs_has_id:
  assumes "orderBelongsToVendor order vendor"
  shows "\<exists>i line. js_get order ''id'' = Some i \<and> js_ToString i = Some line"
proof -
  from assms have t: "orderBelongsToVendor_try order vendor = Some True"
    by (auto simp: orderBelongsToVendor_def split: option.splits)
  then have "js_truthy order \<and> js_truthy vendor"
    by (auto simp: orderBelongsToVendor_try_def split: if_splits)
  with t show ?thesis
    by (auto simp: orderBelongsToVendor_try_def split: Option.bind_splits)
qed

lemma belongs_id_propOf:
  assumes "orderBelongsToVendor order vendor"
  shows "js_get order ''id'' = Some (propOf order ''id'') \<and> js_ToString (propOf order ''id'') \<noteq> None"
  using belongs_has_id [OF assms] by (auto simp: propOf_def)

lemma verify_result:
  assumes "verifyOrdersBelongToVendor orders vid = Some vs"
  shows "\<forall>order \<in> set vs. order \<in> set orders \<and> orderBelongsToVendor order (JStr vid)"
  using assms
  by (auto simp: verifyOrdersBelongToVendor_def Let_def split: if_splits option.splits)

lemma verify_all_own:
  assumes "vid \<noteq> []" and "\<forall>order \<in> set orders. orderBelongsToVendor order (JStr vid)"
  shows "verifyOrdersBelongToVendor orders vid = Some orders"
  using assms by (simp add: verifyOrdersBelongToVendor_def)

lemma js_filter_subset:
  "js_filter p xs = Some ys \<Longrightarrow> set ys \<subseteq> set xs"
  by (induction xs arbitrary: ys) (auto split: option.splits if_splits)

lemma js_filter_holds:
  "js_filter p xs = Some ys \<Longrightarrow> \<forall>y \<in> set ys. p y = Some True"
  by (induction xs arbitrary: ys) (auto split: option.splits if_splits)

lemma newOrdersFor_result:
  assumes "newOrdersFor orders vid ids = Some new"
  shows "\<forall>order \<in> set new. order \<in> set orders \<and> orderBelongsToVendor order (JStr vid)
           \<and> \<not> setHas ids (propOf order ''id'')"
proof -
  from assms obtain vs where vs: "verifyOrdersBelongToVendor orders vid = Some vs"
    and f: "js_filter (\<lambda>order. map_option (\<lambda>i. \<not> setHas ids i) (js_get order ''id'')) vs = Some new"
    by (auto simp: newOrdersFor_def split: option.splits)
  from js_filter_subset [OF f] verify_result [OF vs]
  have a: "\<forall>order \<in> set new. order \<in> set orders \<and> orderBelongsToVendor order (JStr vid)"
    by blast
  from js_filter_holds [OF f]
  have "\<forall>order \<in> set new. \<not> setHas ids (propOf order ''id'')"
    by (auto simp: propOf_def)
  with a show ?thesis by blast
qed

lemma dispatchLoop_throw:
  assumes "\<forall>x \<in> set (pre @ [order]). orderBelongsToVendor x (JStr vid)"
    and "\<forall>x \<in> set pre. callback x = Returned" and "callback order = Threw"
  shows "dispatchLoop callback vid (pre @ order # post) ids
         = (foldl setAdd ids (map (\<lambda>x. propOf x ''id'') (pre @ [order])), pre @ [order], False)"
  using assms
proof (induction pre arbitrary: ids)
  case Nil
  then show ?case
    using belongs_id_propOf [of order "JStr vid"] by auto
next
  case (Cons p pre)
  from Cons.prems have "orderBelongsToVendor p (JStr vid)" by simp
  from belongs_id_propOf [OF this] Cons show ?case by auto
qed

lemma dispatchLoop_all_return:
  assumes "\<forall>x \<in> set batch. orderBelongsToVendor x (JStr vid)"
    and "\<forall>x \<in> set batch. callback x = Returned"
  shows "dispatchLoop callback vid batch ids
         = (foldl setAdd ids (map (\<lambda>x. propOf x ''id'') batch), batch, True)"
  using assms
proof (induction batch arbitrary: ids)
  case Nil
  then show ?case by simp
next
  case (Cons p batch)
  from Cons.prems have "orderBelongsToVendor p (JStr vid)" by simp
  from belongs_id_propOf [OF this] Cons show ?case by auto
qed

lemma isSetContent_setAdd: "isSetContent ids \<Longrightarrow> isSetContent (setAdd ids x)"
  by (auto simp: isSetContent_def setAdd_def setHas_def js_strict_equals_def)

lemma dispatchLoop_isSetContent:
  "isSetContent ids \<Longrightarrow> isSetContent (fst (dispatchLoop callback vid batch ids))"
proof (induction batch arbitrary: ids)
  case Nil
  then show ?case by simp
next
  case (Cons p batch)
  from Cons.IH [of ids] Cons.IH [of "setAdd ids i" for i] Cons.prems show ?case
    by (auto split: option.splits callbackResult.splits
        simp: isSetContent_setAdd split_beta)
qed

lemma newOrdersFor_Nil: "newOrdersFor [] vid ids = Some []"
  by (simp add: newOrdersFor_def verifyOrdersBelongToVendor_def)

lemma dispatchBatch_new:
  assumes "newOrdersFor (snd (fetchOrders api cfg (js_trim (vendorId cfg)))) (js_trim (vendorId cfg)) ids
           = Some batch" and "batch \<noteq> []"
  shows "dispatchBatch api callback cfg ids
         = Some (dispatchLoop callback (js_trim (vendorId cfg)) batch ids)"
proof -
  from assms have "snd (fetchOrders api cfg (js_trim (vendorId cfg))) \<noteq> []"
    by (auto simp: newOrdersFor_Nil)
  with assms show ?thesis by (simp add: dispatchBatch_def Let_def)
qed

lemma cycle_aborted:
  assumes "js_trim (vendorId cfg) \<noteq> []" and "processedOrders s = Some ids"
    and "newOrdersFor (snd (fetchOrders api cfg (js_trim (vendorId cfg)))) (js_trim (vendorId cfg)) ids
         = Some (pre @ order # post)"
    and "\<forall>x \<in> set pre. callback x = Returned" and "callback order = Threw"
  shows "checkForNewOrders api callback now cfg s
         = (s\<lparr>processedOrders := Some (foldl setAdd ids (map (\<lambda>x. propOf x ''id'') (pre @ [order])))\<rparr>,
            pre @ [order])"
proof -
  from newOrdersFor_result [OF assms(3)]
  have own: "\<forall>x \<in> set (pre @ [order]). orderBelongsToVendor x (JStr (js_trim (vendorId cfg)))"
    by simp
  have "dispatchBatch api callback cfg ids
        = Some (dispatchLoop callback (js_trim (vendorId cfg)) (pre @ order # post) ids)"
    using assms(3) by (rule dispatchBatch_new) simp
  also have "\<dots> = Some (foldl setAdd ids (map (\<lambda>x. propOf x ''id'') (pre @ [order])), pre @ [order], False)"
    using dispatchLoop_throw [OF own assms(4,5)] by simp
  finally show ?thesis
    using assms(1,2) by (auto simp: checkForNewOrders_def js_trim_Nil)
qed

text \<open>
  C5, amended. When the handler throws on an order of the batch, the cycle ends there:
  the orders before it and the throwing order were handed to the handler and are
  marked as processed, the orders after it are neither checked nor dispatched in this
  cycle, and nothing is saved (the file is unchanged); the exception does not leave
  the cycle.
\<close>

theorem handler_throw_ends_cycle:
  assumes "js_trim (vendorId cfg) \<noteq> []" and "processedOrders s = Some ids"
    and "newOrdersFor (snd (fetchOrders api cfg (js_trim (vendorId cfg)))) (js_trim (vendorId cfg)) ids
         = Some (pre @ order # post)"
    and "\<forall>x \<in> set pre. callback x = Returned" and "callback order = Threw"
  shows "checkForNewOrders api callback now cfg s
         = (s\<lparr>processedOrders := Some (foldl setAdd ids (map (\<lambda>x. propOf x ''id'') (pre @ [order])))\<rparr>,
            pre @ [order])"
  using assms by (rule cycle_aborted)

lemma cycle_complete:
  assumes "js_trim (vendorId cfg) \<noteq> []" and "processedOrders s = Some ids"
    and "newOrdersFor (snd (fetchOrders api cfg (js_trim (vendorId cfg)))) (js_trim (vendorId cfg)) ids
         = Some batch" and "batch \<noteq> []"
    and "\<forall>x \<in> set batch. callback x = Returned"
  shows "checkForNewOrders api callback now cfg s
         = (saveAndPrune now
              (s\<lparr>processedOrders := Some (foldl setAdd ids (map (\<lambda>x. propOf x ''id'') batch))\<rparr>),
            batch)"
proof -
  from newOrdersFor_result [OF assms(3)]
  have own: "\<forall>x \<in> set batch. orderBelongsToVendor x (JStr (js_trim (vendorId cfg)))"
    by simp
  have "dispatchBatch api callback cfg ids
        = Some (dispatchLoop callback (js_trim (vendorId cfg)) batch ids)"
    using assms(3,4) by (rule dispatchBatch_new)
  also have "\<dots> = Some (foldl setAdd ids (map (\<lambda>x. propOf x ''id'') batch), batch, True)"
    using dispatchLoop_all_return [OF own assms(5)] by simp
  finally show ?thesis
    using assms(1,2) by (auto simp: checkForNewOrders_def js_trim_Nil)
qed

lemma isSetContent_drop: "isSetContent ids \<Longrightarrow> isSetContent (drop n ids)"
proof -
  assume "isSetContent ids"
  then have "distinct (filter isPrimitive (take n ids @ drop n ids))"
    by (simp add: isSetContent_def)
  then show ?thesis
    by (simp add: isSetContent_def del: append_take_drop_id)
qed

lemma saveAndPrune_large:
  assumes "processedOrders s = Some ids" and "isSetContent ids" and "1000 < length ids"
  shows "processedOrders (saveAndPrune now s) = Some (drop (length ids - 500) ids)"
    and "diskWritable s \<Longrightarrow>
         stateFile (saveAndPrune now s)
           = Parsed (parseOfStringify (ledgerDocument (drop (length ids - 500) ids) now))"
proof -
  have k: "foldl setAdd [] (drop (length ids - 500) ids) = drop (length ids - 500) ids"
    using foldl_setAdd_content [of "[]"] isSetContent_drop [OF assms(2)] by simp
  with assms show "processedOrders (saveAndPrune now s) = Some (drop (length ids - 500) ids)"
    by (simp add: saveAndPrune_def saveProcessedOrdersState_def Let_def)
  assume "diskWritable s"
  with k assms show "stateFile (saveAndPrune now s)
           = Parsed (parseOfStringify (ledgerDocument (drop (length ids - 500) ids) now))"
    by (simp add: saveAndPrune_def saveProcessedOrdersState_def Let_def)
qed

text \<open>
  C4, amended. Whenever the dispatch loop of a cycle runs to its end and the set then
  holds more than 1000 ids, the cycle replaces it by exactly its 500 most recently
  added ids, in insertion order, and (the file being writable) the file records these
  ids at once, each as JSON writes it: exactly these ids when they are JSON
  primitives. After 1001 distinct ids the set therefore has exactly 500, the most
  recent ones.
\<close>

theorem prune_after_batch:
  assumes "js_trim (vendorId cfg) \<noteq> []"
    and "processedOrders s = Some ids0" and "isSetContent ids0"
    and "dispatchBatch api callback cfg ids0 = Some (ids, delivered, True)"
    and "1000 < length ids"
  shows "processedOrders (fst (checkForNewOrders api callback now cfg s))
           = Some (drop (length ids - 500) ids)
     \<and> length (drop (length ids - 500) ids) = 500
     \<and> (diskWritable s
          \<longrightarrow> stateFile (fst (checkForNewOrders api callback now cfg s))
               = Parsed (JObj [(''orders'',
                                JArr (map (\<lambda>x. if x = JUndefined then JNull else parseOfStringify x)
                                       (drop (length ids - 500) ids))),
                               (''lastUpdate'', JStr now)]))
     \<and> (diskWritable s \<and> (\<forall>x \<in> set ids. isJsonPrimitive x)
          \<longrightarrow> stateFile (fst (checkForNewOrders api callback now cfg s))
               = Parsed (JObj [(''orders'', JArr (drop (length ids - 500) ids)),
                               (''lastUpdate'', JStr now)]))"
proof -
  from assms(4) obtain batch where
    "dispatchLoop callback (js_trim (vendorId cfg)) batch ids0 = (ids, delivered, True)"
    by (auto simp: dispatchBatch_def Let_def split: if_splits option.splits)
  with dispatchLoop_isSetContent [OF assms(3), of callback "js_trim (vendorId cfg)" batch]
  have c: "isSetContent ids" by simp
  have "checkForNewOrders api callback now cfg s
        = (saveAndPrune now (s\<lparr>processedOrders := Some ids\<rparr>), delivered)"
    using assms(1,2,4) by (auto simp: checkForNewOrders_def js_trim_Nil)
  then have r: "fst (checkForNewOrders api callback now cfg s)
                = saveAndPrune now (s\<lparr>processedOrders := Some ids\<rparr>)"
    by simp
  note large = saveAndPrune_large [of "s\<lparr>processedOrders := Some ids\<rparr>" ids now, simplified]
  have m: "processedOrders (fst (checkForNewOrders api callback now cfg s))
           = Some (drop (length ids - 500) ids)"
    using large(1) [OF c assms(5)] r by simp
  have f: "stateFile (fst (checkForNewOrders api callback now cfg s))
           = Parsed (parseOfStringify (ledgerDocument (drop (length ids - 500) ids) now))"
    if "diskWritable s"
    using large(2) [OF c assms(5) that] r by simp
  have e: "parseOfStringify (ledgerDocument (drop (length ids - 500) ids) now)
           = JObj [(''orders'', JArr (drop (length ids - 500) ids)), (''lastUpdate'', JStr now)]"
    if "\<forall>x \<in> set ids. isJsonPrimitive x"
  proof (rule ledger_file_written_exact)
    from that show "\<forall>x \<in> set (drop (length ids - 500) ids). isJsonPrimitive x"
      by (auto dest: in_set_dropD)
  qed
  have l: "length (drop (length ids - 500) ids) = 500"
    using assms(5) by simp
  from m l f e show ?thesis
    by (simp add: ledger_file_written [symmetric])
qed

lemma dispatchLoop_delivered:
  "set (fst (snd (dispatchLoop callback vid batch ids))) \<subseteq> set batch"
proof (induction batch arbitrary: ids)
  case Nil
  then show ?case by simp
next
  case (Cons p batch)
  from Cons.IH [of ids] Cons.IH [of "setAdd ids i" for i] show ?case
    by (auto split: option.splits callbackResult.splits simp: split_beta)
qed

text \<open>
  What the ledger filter does give: an id that is in the set when a cycle starts is
  not handed to the handler in that cycle.
\<close>

lemma processed_id_not_redelivered:
  assumes "processedOrders s = Some ids"
    and "x \<in> set (snd (checkForNewOrders api callback now cfg s))"
  shows "\<not> setHas ids (propOf x ''id'')"
proof -
  from assms obtain batch where
    n: "newOrdersFor (snd (fetchOrders api cfg (js_trim (vendorId cfg)))) (js_trim (vendorId cfg)) ids
        = Some batch"
    and x: "x \<in> set (fst (snd (dispatchLoop callback (js_trim (vendorId cfg)) batch ids)))"
    by (auto simp: checkForNewOrders_def dispatchBatch_def Let_def
        split: if_splits option.splits prod.splits)
  from x dispatchLoop_delivered have "x \<in> set batch" by blast
  with newOrdersFor_result [OF n] show ?thesis by blast
qed

lemma ownedOrder_id: "propOf (ownedOrder n vid) ''id'' = JNum n"
  and ownedOrder_get_id: "js_get (ownedOrder n vid) ''id'' = Some (JNum n)"
  by (simp_all add: ownedOrder_def propOf_def)

lemma fetch_respondsDirect:
  "orders \<noteq> [] \<Longrightarrow> fetchOrders (respondsDirect orders) cfg vid = ([WcVendorParam], orders)"
  by (simp add: fetchOrders_def getWooCommerceOrders_def)

lemma setHas_Nil: "\<not> setHas [] x"
  by (simp add: setHas_def)

lemma setHas_numbers: "setHas (JNum a # ids) (JNum b) = (a = b \<or> setHas ids (JNum b))"
  by (auto simp: setHas_def js_strict_equals_def)

lemma newOrdersFor_sample2:
  "\<not> setHas ids (JNum a) \<Longrightarrow> \<not> setHas ids (JNum b) \<Longrightarrow>
   newOrdersFor [ownedOrder a ''7'', ownedOrder b ''7''] ''7'' ids
     = Some [ownedOrder a ''7'', ownedOrder b ''7'']"
  by (simp add: newOrdersFor_def verifyOrdersBelongToVendor_def ownedOrder_belongs ownedOrder_get_id)

text \<open>
  C1, on the code: a fetch that returns the order 100 twice in one response. Both
  copies pass the ledger filter, which is computed before the loop adds any id, and
  the handler is called twice for the id 100 within one cycle.
\<close>

theorem duplicate_in_batch_dispatched_twice:
  "snd (checkForNewOrders (respondsDirect [ownedOrder 100 ''7'', ownedOrder 100 ''7''])
          alwaysReturns ''2024-05-01T12:00:00.000Z'' shopConfig
          \<lparr>processedOrders = Some [], stateFile = NoFile, diskWritable = True,
           isListening = True, intervalId = Some 60000\<rparr>)
   = [ownedOrder 100 ''7'', ownedOrder 100 ''7'']"
proof -
  let ?s = "\<lparr>processedOrders = Some [], stateFile = NoFile, diskWritable = True,
           isListening = True, intervalId = Some 60000\<rparr>"
  have n: "newOrdersFor (snd (fetchOrders (respondsDirect [ownedOrder 100 ''7'', ownedOrder 100 ''7''])
              shopConfig (js_trim (vendorId shopConfig)))) (js_trim (vendorId shopConfig)) []
           = Some [ownedOrder 100 ''7'', ownedOrder 100 ''7'']"
    by (simp add: fetch_respondsDirect shopConfig_vendor newOrdersFor_sample2 setHas_Nil)
  have "checkForNewOrders (respondsDirect [ownedOrder 100 ''7'', ownedOrder 100 ''7''])
          alwaysReturns ''2024-05-01T12:00:00.000Z'' shopConfig ?s
        = (saveAndPrune ''2024-05-01T12:00:00.000Z''
              (?s\<lparr>processedOrders := Some (foldl setAdd [] (map (\<lambda>x. propOf x ''id'')
                  [ownedOrder 100 ''7'', ownedOrder 100 ''7'']))\<rparr>),
            [ownedOrder 100 ''7'', ownedOrder 100 ''7''])"
    by (rule cycle_complete [OF _ _ n]) (simp_all add: shopConfig_vendor alwaysReturns_def)
  then show ?thesis by simp
qed

text \<open>
  C5, as stated: the handler throws on order 100, the first of a batch of two. Order
  101 belongs to the vendor and the handler would return on it, but it is never
  dispatched: only order 100 was handed over, and only its id is in the set.
\<close>

theorem handler_throw_counterexample:
  "throwsOn (ownedOrder 100 ''7'') (ownedOrder 100 ''7'') = Threw
   \<and> throwsOn (ownedOrder 100 ''7'') (ownedOrder 101 ''7'') = Returned
   \<and> orderBelongsToVendor (ownedOrder 101 ''7'') (JStr ''7'')
   \<and> checkForNewOrders (respondsDirect [ownedOrder 100 ''7'', ownedOrder 101 ''7''])
          (throwsOn (ownedOrder 100 ''7'')) ''2024-05-01T12:00:00.000Z'' shopConfig
          \<lparr>processedOrders = Some [], stateFile = NoFile, diskWritable = True,
           isListening = True, intervalId = Some 60000\<rparr>
     = (\<lparr>processedOrders = Some [JNum 100], stateFile = NoFile, diskWritable = True,
          isListening = True, intervalId = Some 60000\<rparr>,
        [ownedOrder 100 ''7''])"
proof -
  let ?s = "\<lparr>processedOrders = Some [], stateFile = NoFile, diskWritable = True,
           isListening = True, intervalId = Some 60000\<rparr>"
  have n: "newOrdersFor (snd (fetchOrders (respondsDirect [ownedOrder 100 ''7'', ownedOrder 101 ''7''])
              shopConfig (js_trim (vendorId shopConfig)))) (js_trim (vendorId shopConfig)) []
           = Some [ownedOrder 100 ''7'', ownedOrder 101 ''7'']"
    by (simp add: fetch_respondsDirect shopConfig_vendor newOrdersFor_sample2 setHas_Nil)
  have b: "dispatchBatch (respondsDirect [ownedOrder 100 ''7'', ownedOrder 101 ''7''])
             (throwsOn (ownedOrder 100 ''7'')) shopConfig []
           = Some (dispatchLoop (throwsOn (ownedOrder 100 ''7'')) (js_trim (vendorId shopConfig))
                [ownedOrder 100 ''7'', ownedOrder 101 ''7''] [])"
    using n by (rule dispatchBatch_new) simp
  have l: "dispatchLoop (throwsOn (ownedOrder 100 ''7'')) ''7''
             [ownedOrder 100 ''7'', ownedOrder 101 ''7''] []
           = ([JNum 100], [ownedOrder 100 ''7''], False)"
    by (simp add: ownedOrder_belongs ownedOrder_get_id throwsOn_def setAdd_def setHas_Nil
        number_toString_def)
  have c: "checkForNewOrders (respondsDirect [ownedOrder 100 ''7'', ownedOrder 101 ''7''])
          (throwsOn (ownedOrder 100 ''7'')) ''2024-05-01T12:00:00.000Z'' shopConfig ?s
     = (\<lparr>processedOrders = Some [JNum 100], stateFile = NoFile, diskWritable = True,
          isListening = True, intervalId = Some 60000\<rparr>,
        [ownedOrder 100 ''7''])"
  proof -
    have "dispatchBatch (respondsDirect [ownedOrder 100 ''7'', ownedOrder 101 ''7''])
             (throwsOn (ownedOrder 100 ''7'')) shopConfig []
          = Some ([JNum 100], [ownedOrder 100 ''7''], False)"
      by (simp only: b shopConfig_vendor l)
    then show ?thesis
      by (simp add: checkForNewOrders_def shopConfig_vendorId trim_seven)
  qed
  have t: "throwsOn (ownedOrder 100 ''7'') (ownedOrder 100 ''7'') = Threw"
    "throwsOn (ownedOrder 100 ''7'') (ownedOrder 101 ''7'') = Returned"
    by (simp_all add: throwsOn_def ownedOrder_def)
  from c t show ?thesis by (simp add: ownedOrder_belongs)
qed

lemma js_filter_all: "\<forall>x \<in> set xs. p x = Some True \<Longrightarrow> js_filter p xs = Some xs"
  by (induction xs) auto

lemma newOrdersFor_owned:
  assumes "vid \<noteq> []" and "\<forall>x \<in> set orders. orderBelongsToVendor x (JStr vid)"
    and "\<forall>x \<in> set orders. \<not> setHas ids (propOf x ''id'')"
  shows "newOrdersFor orders vid ids = Some orders"
proof -
  have "\<forall>x \<in> set orders. map_option (\<lambda>i. \<not> setHas ids i) (js_get x ''id'') = Some True"
    using assms(2,3) belongs_id_propOf by fastforce
  then show ?thesis
    using verify_all_own [OF assms(1,2)] by (simp add: newOrdersFor_def js_filter_all)
qed

theorem handler_throw_ends_cycle_witness:
  "js_trim (vendorId shopConfig) \<noteq> []
   \<and> throwsOn (ownedOrder 101 ''7'') (ownedOrder 100 ''7'') = Returned
   \<and> throwsOn (ownedOrder 101 ''7'') (ownedOrder 101 ''7'') = Threw
   \<and> checkForNewOrders (respondsDirect [ownedOrder 100 ''7'', ownedOrder 101 ''7'', ownedOrder 102 ''7''])
          (throwsOn (ownedOrder 101 ''7'')) ''2024-05-01T12:00:00.000Z'' shopConfig
          \<lparr>processedOrders = Some [], stateFile = NoFile, diskWritable = True,
           isListening = True, intervalId = Some 60000\<rparr>
     = (\<lparr>processedOrders = Some [JNum 100, JNum 101], stateFile = NoFile, diskWritable = True,
          isListening = True, intervalId = Some 60000\<rparr>,
        [ownedOrder 100 ''7'', ownedOrder 101 ''7''])"
proof -
  let ?s = "\<lparr>processedOrders = Some [], stateFile = NoFile, diskWritable = True,
           isListening = True, intervalId = Some 60000\<rparr>"
  let ?batch = "[ownedOrder 100 ''7'', ownedOrder 101 ''7'', ownedOrder 102 ''7'']"
  have h1: "js_trim (vendorId shopConfig) \<noteq> []" by (simp add: shopConfig_vendor)
  have h2: "processedOrders ?s = Some []" by simp
  have "newOrdersFor ?batch ''7'' [] = Some ?batch"
    by (rule newOrdersFor_owned) (simp_all add: ownedOrder_belongs setHas_Nil)
  then have h3: "newOrdersFor (snd (fetchOrders (respondsDirect ?batch) shopConfig
                    (js_trim (vendorId shopConfig)))) (js_trim (vendorId shopConfig)) []
                 = Some ([ownedOrder 100 ''7''] @ ownedOrder 101 ''7'' # [ownedOrder 102 ''7''])"
    by (simp add: fetch_respondsDirect shopConfig_vendor)
  have h4: "\<forall>x \<in> set [ownedOrder 100 ''7'']. throwsOn (ownedOrder 101 ''7'') x = Returned"
    and h5: "throwsOn (ownedOrder 101 ''7'') (ownedOrder 101 ''7'') = Threw"
    by (simp_all add: throwsOn_def ownedOrder_def)
  from handler_throw_ends_cycle [OF h1 h2 h3 h4 h5, of "''2024-05-01T12:00:00.000Z''"] h1 h4 h5
  show ?thesis
    by (simp add: ownedOrder_id setAdd_def setHas_Nil setHas_numbers)
qed

lemma numberedIds_append:
  assumes "a \<le> b" and "b \<le> c"
  shows "numberedIds a b @ numberedIds b c = numberedIds a c"
proof -
  from assms(2) obtain k where "c = b + k" by (auto simp: le_iff_add)
  with upt_add_eq_append [OF assms(1), of k] show ?thesis
    by (simp add: numberedIds_def)
qed

lemma numberedIds_length: "length (numberedIds a b) = b - a"
  by (simp add: numberedIds_def)

lemma numberedIds_drop: "drop n (numberedIds a b) = numberedIds (a + n) b"
  by (simp add: numberedIds_def drop_map)

lemma numberedIds_primitive: "filter isPrimitive (numberedIds a b) = numberedIds a b"
  by (simp add: numberedIds_def filter_map o_def)

lemma numberedIds_isSetContent: "isSetContent (numberedIds a b)"
  by (simp add: isSetContent_def numberedIds_primitive)
    (simp add: numberedIds_def distinct_map inj_on_def)

lemma numberedIds_isJsonPrimitive: "\<forall>x \<in> set (numberedIds a b). isJsonPrimitive x"
  by (auto simp: numberedIds_def isJsonPrimitive_def)

lemma ownedOrders_ids: "map (\<lambda>x. propOf x ''id'') (ownedOrders a b) = numberedIds a b"
  by (simp add: ownedOrders_def numberedIds_def ownedOrder_id o_def)

lemma ownedOrders_belong: "\<forall>x \<in> set (ownedOrders a b). orderBelongsToVendor x (JStr ''7'')"
  by (auto simp: ownedOrders_def ownedOrder_belongs)

lemma setHas_numberedIds: "setHas (numberedIds a b) (JNum (int n)) = (a \<le> n \<and> n < b)"
  by (auto simp: setHas_def numberedIds_def js_strict_equals_def)

lemma ownedOrders_new:
  "b \<le> c \<Longrightarrow> \<forall>x \<in> set (ownedOrders c d). \<not> setHas (numberedIds a b) (propOf x ''id'')"
  by (auto simp: ownedOrders_def ownedOrder_id setHas_numberedIds)

text \<open>
  C4, as stated: the set holds 1000 ids and the fetch brings two new orders; the
  handler throws on the second. Both ids were added, so the set holds 1002 ids, and
  the exception leaves the cycle before the save and the size check: the set is not
  pruned and nothing is written.
\<close>

theorem prune_skipped_counterexample:
  "checkForNewOrders (respondsDirect [ownedOrder 1000 ''7'', ownedOrder 1001 ''7''])
      (throwsOn (ownedOrder 1001 ''7'')) ''2024-05-01T12:00:00.000Z'' shopConfig
      \<lparr>processedOrders = Some (numberedIds 0 1000), stateFile = NoFile, diskWritable = True,
       isListening = True, intervalId = Some 60000\<rparr>
     = (\<lparr>processedOrders = Some (numberedIds 0 1002), stateFile = NoFile, diskWritable = True,
         isListening = True, intervalId = Some 60000\<rparr>,
        [ownedOrder 1000 ''7'', ownedOrder 1001 ''7''])
   \<and> length (numberedIds 0 1002) = 1002"
proof -
  let ?s = "\<lparr>processedOrders = Some (numberedIds 0 1000), stateFile = NoFile, diskWritable = True,
       isListening = True, intervalId = Some 60000\<rparr>"
  have e: "[ownedOrder 1000 ''7'', ownedOrder 1001 ''7''] = ownedOrders 1000 1002"
    by (simp add: ownedOrders_def)
  have "newOrdersFor (ownedOrders 1000 1002) ''7'' (numberedIds 0 1000) = Some (ownedOrders 1000 1002)"
  proof (rule newOrdersFor_owned)
    show "''7'' \<noteq> []" by simp
    show "\<forall>x \<in> set (ownedOrders 1000 1002). orderBelongsToVendor x (JStr ''7'')"
      by (rule ownedOrders_belong)
    show "\<forall>x \<in> set (ownedOrders 1000 1002). \<not> setHas (numberedIds 0 1000) (propOf x ''id'')"
      by (rule ownedOrders_new) simp
  qed
  then have n: "newOrdersFor (snd (fetchOrders (respondsDirect [ownedOrder 1000 ''7'', ownedOrder 1001 ''7''])
                    shopConfig (js_trim (vendorId shopConfig)))) (js_trim (vendorId shopConfig))
                  (numberedIds 0 1000)
                = Some ([ownedOrder 1000 ''7''] @ ownedOrder 1001 ''7'' # [])"
    unfolding e [symmetric] by (simp add: fetch_respondsDirect shopConfig_vendor)
  have t: "\<forall>x \<in> set [ownedOrder 1000 ''7'']. throwsOn (ownedOrder 1001 ''7'') x = Returned"
    "throwsOn (ownedOrder 1001 ''7'') (ownedOrder 1001 ''7'') = Threw"
    by (simp_all add: throwsOn_def ownedOrder_def)
  have f: "foldl setAdd (numberedIds 0 1000) (numberedIds 1000 1002) = numberedIds 0 1002"
    using foldl_setAdd_content [of "numberedIds 0 1000" "numberedIds 1000 1002"]
    by (simp add: numberedIds_append numberedIds_isSetContent)
  have m: "map (\<lambda>x. propOf x ''id'') ([ownedOrder 1000 ''7''] @ [ownedOrder 1001 ''7''])
           = numberedIds 1000 1002"
    using ownedOrders_ids [of 1000 1002] by (simp add: e [symmetric])
  have "checkForNewOrders (respondsDirect [ownedOrder 1000 ''7'', ownedOrder 1001 ''7''])
          (throwsOn (ownedOrder 1001 ''7'')) ''2024-05-01T12:00:00.000Z'' shopConfig ?s
        = (?s\<lparr>processedOrders := Some (foldl setAdd (numberedIds 0 1000)
               (map (\<lambda>x. propOf x ''id'') ([ownedOrder 1000 ''7''] @ [ownedOrder 1001 ''7''])))\<rparr>,
           [ownedOrder 1000 ''7''] @ [ownedOrder 1001 ''7''])"
    by (rule cycle_aborted [OF _ _ n t]) (simp_all add: shopConfig_vendor)
  then show ?thesis
    by (simp only: m f) (simp add: numberedIds_length)
qed

theorem prune_after_batch_witness:
  "js_trim (vendorId shopConfig) \<noteq> []
   \<and> isSetContent (numberedIds 0 990)
   \<and> dispatchBatch (respondsDirect (ownedOrders 990 1001)) alwaysReturns shopConfig (numberedIds 0 990)
       = Some (numberedIds 0 1001, ownedOrders 990 1001, True)
   \<and> length (numberedIds 0 1001) = 1001
   \<and> processedOrders (fst (checkForNewOrders (respondsDirect (ownedOrders 990 1001)) alwaysReturns
        ''2024-05-01T12:00:00.000Z'' shopConfig
        \<lparr>processedOrders = Some (numberedIds 0 990), stateFile = NoFile, diskWritable = True,
         isListening = True, intervalId = Some 60000\<rparr>))
       = Some (numberedIds 501 1001)
   \<and> length (numberedIds 501 1001) = 500
   \<and> stateFile (fst (checkForNewOrders (respondsDirect (ownedOrders 990 1001)) alwaysReturns
        ''2024-05-01T12:00:00.000Z'' shopConfig
        \<lparr>processedOrders = Some (numberedIds 0 990), stateFile = NoFile, diskWritable = True,
         isListening = True, intervalId = Some 60000\<rparr>))
       = Parsed (ledgerDocument (numberedIds 501 1001) ''2024-05-01T12:00:00.000Z'')"
proof -
  let ?s = "\<lparr>processedOrders = Some (numberedIds 0 990), stateFile = NoFile, diskWritable = True,
         isListening = True, intervalId = Some 60000\<rparr>"
  have h1: "js_trim (vendorId shopConfig) \<noteq> []" by (simp add: shopConfig_vendor)
  have h2: "processedOrders ?s = Some (numberedIds 0 990)" and h4: "diskWritable ?s" by simp_all
  have h3: "isSetContent (numberedIds 0 990)" by (rule numberedIds_isSetContent)
  have ne: "ownedOrders 990 1001 \<noteq> []" by (simp add: ownedOrders_def)
  have "newOrdersFor (ownedOrders 990 1001) ''7'' (numberedIds 0 990) = Some (ownedOrders 990 1001)"
  proof (rule newOrdersFor_owned)
    show "''7'' \<noteq> []" by simp
    show "\<forall>x \<in> set (ownedOrders 990 1001). orderBelongsToVendor x (JStr ''7'')"
      by (rule ownedOrders_belong)
    show "\<forall>x \<in> set (ownedOrders 990 1001). \<not> setHas (numberedIds 0 990) (propOf x ''id'')"
      by (rule ownedOrders_new) simp
  qed
  then have n: "newOrdersFor (snd (fetchOrders (respondsDirect (ownedOrders 990 1001)) shopConfig
                  (js_trim (vendorId shopConfig)))) (js_trim (vendorId shopConfig)) (numberedIds 0 990)
                = Some (ownedOrders 990 1001)"
    by (simp add: fetch_respondsDirect [OF ne] shopConfig_vendor)
  have "foldl setAdd (numberedIds 0 990) (numberedIds 990 1001) = numberedIds 0 990 @ numberedIds 990 1001"
    by (rule foldl_setAdd_content) (simp add: numberedIds_append numberedIds_isSetContent)
  then have l: "dispatchLoop alwaysReturns ''7'' (ownedOrders 990 1001) (numberedIds 0 990)
                = (numberedIds 0 1001, ownedOrders 990 1001, True)"
    using dispatchLoop_all_return [of "ownedOrders 990 1001" "''7''" alwaysReturns "numberedIds 0 990"]
    by (simp add: ownedOrders_belong alwaysReturns_def ownedOrders_ids numberedIds_append)
  have h5: "dispatchBatch (respondsDirect (ownedOrders 990 1001)) alwaysReturns shopConfig (numberedIds 0 990)
            = Some (numberedIds 0 1001, ownedOrders 990 1001, True)"
    using dispatchBatch_new [OF n ne, of alwaysReturns] l by (simp add: shopConfig_vendor)
  have h6: "1000 < length (numberedIds 0 1001)" by (simp add: numberedIds_length)
  have p: "\<forall>x \<in> set (numberedIds 0 1001). isJsonPrimitive x"
    by (rule numberedIds_isJsonPrimitive)
  from prune_after_batch [OF h1 h2 h3 h5 h6, of "''2024-05-01T12:00:00.000Z''"] h4 p
  have "processedOrders (fst (checkForNewOrders (respondsDirect (ownedOrders 990 1001)) alwaysReturns
          ''2024-05-01T12:00:00.000Z'' shopConfig ?s))
          = Some (drop (length (numberedIds 0 1001) - 500) (numberedIds 0 1001))
      \<and> stateFile (fst (checkForNewOrders (respondsDirect (ownedOrders 990 1001)) alwaysReturns
          ''2024-05-01T12:00:00.000Z'' shopConfig ?s))
          = Parsed (JObj [(''orders'', JArr (drop (length (numberedIds 0 1001) - 500) (numberedIds 0 1001))),
                          (''lastUpdate'', JStr ''2024-05-01T12:00:00.000Z'')])"
    by blast
  with h1 h3 h5 show ?thesis
    by (simp add: numberedIds_drop numberedIds_length ledgerDocument_def)
qed

lemma orderWithoutId_belongs: "orderBelongsToVendor orderWithoutId (JStr ''7'')"
  by (simp add: orderWithoutId_def orderBelongsToVendor_def orderBelongsToVendor_try_def
      js_toString_def metaDataHasVendor_def vendorMetaMatches_def orderMetaKeys_def)

lemma orderWithoutId_id: "propOf orderWithoutId ''id'' = JUndefined"
  by (simp add: orderWithoutId_def propOf_def)

text \<open>
  C9, as stated: an order of the vendor that has no \<^verbatim>\<open>id\<close> is dispatched and the
  cycle adds \<^verbatim>\<open>undefined\<close> to the set. The save writes it as \<^verbatim>\<open>null\<close>, so
  loading the saved file yields the set holding \<^verbatim>\<open>null\<close>, not the set saved.
\<close>

theorem undefined_id_round_trip_counterexample:
  "processedOrders (fst (checkForNewOrders (respondsDirect [orderWithoutId]) alwaysReturns
        ''2024-05-01T12:00:00.000Z'' shopConfig
        \<lparr>processedOrders = Some [], stateFile = NoFile, diskWritable = True,
         isListening = True, intervalId = Some 60000\<rparr>))
     = Some [JUndefined]
   \<and> stateFile (snd (saveProcessedOrdersState ''2024-05-01T12:00:00.000Z''
        \<lparr>processedOrders = Some [JUndefined], stateFile = NoFile, diskWritable = True,
         isListening = True, intervalId = Some 60000\<rparr>))
     = Parsed (JObj [(''orders'', JArr [JNull]), (''lastUpdate'', JStr ''2024-05-01T12:00:00.000Z'')])
   \<and> processedOrders (snd (loadProcessedOrdersState
        (snd (saveProcessedOrdersState ''2024-05-01T12:00:00.000Z''
          \<lparr>processedOrders = Some [JUndefined], stateFile = NoFile, diskWritable = True,
           isListening = True, intervalId = Some 60000\<rparr>)\<lparr>processedOrders := None\<rparr>)))
     = Some [JNull]
   \<and> Some [JNull] \<noteq> Some [JUndefined]"
proof -
  let ?s = "\<lparr>processedOrders = Some [], stateFile = NoFile, diskWritable = True,
         isListening = True, intervalId = Some 60000\<rparr>"
  have "newOrdersFor [orderWithoutId] ''7'' [] = Some [orderWithoutId]"
    by (rule newOrdersFor_owned) (simp_all add: orderWithoutId_belongs setHas_Nil)
  then have n: "newOrdersFor (snd (fetchOrders (respondsDirect [orderWithoutId]) shopConfig
                    (js_trim (vendorId shopConfig)))) (js_trim (vendorId shopConfig)) []
                = Some [orderWithoutId]"
    by (simp add: fetch_respondsDirect shopConfig_vendor)
  have "checkForNewOrders (respondsDirect [orderWithoutId]) alwaysReturns
          ''2024-05-01T12:00:00.000Z'' shopConfig ?s
        = (saveAndPrune ''2024-05-01T12:00:00.000Z''
             (?s\<lparr>processedOrders := Some (foldl setAdd [] (map (\<lambda>x. propOf x ''id'') [orderWithoutId]))\<rparr>),
           [orderWithoutId])"
    by (rule cycle_complete [OF _ _ n]) (simp_all add: shopConfig_vendor alwaysReturns_def)
  then have a: "processedOrders (fst (checkForNewOrders (respondsDirect [orderWithoutId]) alwaysReturns
          ''2024-05-01T12:00:00.000Z'' shopConfig ?s)) = Some [JUndefined]"
    by (simp add: orderWithoutId_id setAdd_def setHas_Nil saveAndPrune_def
        saveProcessedOrdersState_def Let_def)
  have b: "stateFile (snd (saveProcessedOrdersState ''2024-05-01T12:00:00.000Z''
        \<lparr>processedOrders = Some [JUndefined], stateFile = NoFile, diskWritable = True,
         isListening = True, intervalId = Some 60000\<rparr>))
     = Parsed (JObj [(''orders'', JArr [JNull]), (''lastUpdate'', JStr ''2024-05-01T12:00:00.000Z'')])"
    by (simp add: saveProcessedOrdersState_def ledgerDocument_def)
  have c: "processedOrders (snd (loadProcessedOrdersState
        (snd (saveProcessedOrdersState ''2024-05-01T12:00:00.000Z''
          \<lparr>processedOrders = Some [JUndefined], stateFile = NoFile, diskWritable = True,
           isListening = True, intervalId = Some 60000\<rparr>)\<lparr>processedOrders := None\<rparr>)))
     = Some [JNull]"
    by (simp add: saveProcessedOrdersState_def ledgerDocument_def loadProcessedOrdersState_def
        newSet_def setAdd_def setHas_Nil propOf_def)
  from a b c show ?thesis by simp
qed

end
